theory Spec2Isabelle
  imports Main
begin

section \<open>Data model\<close>

text \<open>
  Modelled from the spec: the type \<^verbatim>\<open>Lead\<close> is declared in \<^verbatim>\<open>lib/supabase\<close>, which is
  not among the sources. The record has the fields the data model names and the pages
  read: the identity, the mutable \<^verbatim>\<open>status\<close>, the nullable \<^verbatim>\<open>assigned_to\<close> and
  \<^verbatim>\<open>desk\<close>, the \<^verbatim>\<open>team\<close> label, the \<^verbatim>\<open>is_converted\<close> flag the queries select on,
  and the creation time. A nullable string is a \<open>string option\<close>, \<^verbatim>\<open>null\<close> being
  \<open>None\<close>.
\<close>

record lead =
  lead_id :: string
  status :: string
  assigned_to :: "string option"
  desk :: "string option"
  team :: "string option"
  is_converted :: bool
  created_at :: nat

text \<open>
  Modelled from the spec: the viewer is what \<^verbatim>\<open>getCurrentUser()\<close> of \<^verbatim>\<open>lib/supabase\<close>
  answers, typed \<^verbatim>\<open>any\<close> where it is used. The record has the three fields the pages
  read. The role is compared as a plain string, so any string can occur, not only the
  four known roles.
\<close>

record user =
  user_id :: string
  role :: string
  full_name :: "string option"

text \<open>
  JavaScript truthiness of a nullable string (\<^verbatim>\<open>lead.assigned_to && ...\<close>): \<^verbatim>\<open>null\<close> and
  the empty string are falsy. \<^verbatim>\<open>subordinateIds.includes(lead.assigned_to)\<close> on a string
  array is membership.
\<close>

definition js_truthy :: "string option \<Rightarrow> bool" where
  "js_truthy v = (case v of None \<Rightarrow> False | Some s \<Rightarrow> s \<noteq> [])"

definition js_includes :: "string list \<Rightarrow> string option \<Rightarrow> bool" where
  "js_includes xs v = (case v of None \<Rightarrow> False | Some s \<Rightarrow> s \<in> set xs)"

section \<open>Visibility filter\<close>

text \<open>
  \<^verbatim>\<open>fetchLeads\<close>, lines 118-139: the filter applied to the first page. No branch is
  taken for a role that is none of the four, and the batch stays as it is.
\<close>

definition filterFirstBatch :: "user \<Rightarrow> string list \<Rightarrow> lead list \<Rightarrow> lead list" where
  "filterFirstBatch currentUser subordinateIds allLeads =
     (if role currentUser = ''admin'' then allLeads
      else if role currentUser = ''desk'' then
        filter (\<lambda>lead. desk lead = full_name currentUser
                     \<or> assigned_to lead = Some (user_id currentUser)
                     \<or> (js_truthy (assigned_to lead)
                          \<and> js_includes subordinateIds (assigned_to lead))) allLeads
      else if role currentUser = ''manager'' then
        filter (\<lambda>lead. assigned_to lead = Some (user_id currentUser)
                     \<or> (js_truthy (assigned_to lead)
                          \<and> js_includes subordinateIds (assigned_to lead))) allLeads
      else if role currentUser = ''agent'' then
        filter (\<lambda>lead. assigned_to lead = Some (user_id currentUser)) allLeads
      else allLeads)"

text \<open>\<^verbatim>\<open>loadRemaining\<close>, lines 184-206: the same chain, written out again for each
  background page.\<close>

definition filterBatch :: "user \<Rightarrow> string list \<Rightarrow> lead list \<Rightarrow> lead list" where
  "filterBatch currentUser subordinateIds data_rows =
     (if role currentUser = ''admin'' then data_rows
      else if role currentUser = ''desk'' then
        filter (\<lambda>lead. desk lead = full_name currentUser
                     \<or> assigned_to lead = Some (user_id currentUser)
                     \<or> (js_truthy (assigned_to lead)
                          \<and> js_includes subordinateIds (assigned_to lead))) data_rows
      else if role currentUser = ''manager'' then
        filter (\<lambda>lead. assigned_to lead = Some (user_id currentUser)
                     \<or> (js_truthy (assigned_to lead)
                          \<and> js_includes subordinateIds (assigned_to lead))) data_rows
      else if role currentUser = ''agent'' then
        filter (\<lambda>lead. assigned_to lead = Some (user_id currentUser)) data_rows
      else data_rows)"

text \<open>
  A lead passes a filter when the filter keeps it: the filter run on the lead alone
  returns it. \<open>visible\<close> is the viewer's visibility predicate, read off the background
  filter.
\<close>

definition passesFirst :: "user \<Rightarrow> string list \<Rightarrow> lead \<Rightarrow> bool" where
  "passesFirst currentUser subordinateIds l =
     (filterFirstBatch currentUser subordinateIds [l] = [l])"

definition visible :: "user \<Rightarrow> string list \<Rightarrow> lead \<Rightarrow> bool" where
  "visible currentUser subordinateIds l =
     (filterBatch currentUser subordinateIds [l] = [l])"

text \<open>
  \<^verbatim>\<open>loadRemaining\<close>, lines 210-215: the updater handed to \<^verbatim>\<open>setLeads\<close>. The set
  \<^verbatim>\<open>seen\<close> holds the identities already displayed; when nothing is new the previous
  array itself is returned.
\<close>

definition mergeLeads :: "lead list \<Rightarrow> lead list \<Rightarrow> lead list" where
  "mergeLeads prev filteredBatch =
     (let seen = set (map lead_id prev);
          newOnes = filter (\<lambda>l. lead_id l \<notin> seen) filteredBatch
      in if length newOnes = 0 then prev else prev @ newOnes)"

section \<open>The external store and the page state\<close>

text \<open>
  The hosted database is outside the repository. What the pages observe of it is kept
  here: the rows of the \<^verbatim>\<open>leads\<close> table, the rows of the append-only
  \<^verbatim>\<open>lead_activities\<close> table, and the trace of the requests sent. A request answers
  with \<^verbatim>\<open>{ data, error }\<close>; it does not throw, which is why every call site tests
  \<^verbatim>\<open>error\<close> itself. Whether a given request fails is the environment's choice and is a
  parameter of each handler.
\<close>

record activity =
  act_lead_id :: string
  act_type :: string
  description :: string

datatype request =
    SelectRange nat nat
  | UpdateStatusEq string string
  | UpdateAssignedEq string "string option"
  | UpdateStatusIn "string list" string
  | DeleteIn "string list"
  | InsertActivity activity

datatype toast = ToastSuccess string | ToastError string

datatype console_entry = ConsoleError string | ConsoleWarn string

record response =
  data :: "lead list option"
  error :: "string option"

text \<open>
  The state the handlers read and write: the two tables, the \<^verbatim>\<open>useState\<close> cells of
  \<^verbatim>\<open>SalesLeads\<close> (\<^verbatim>\<open>leads\<close> is the displayed collection), and what the user and the
  console were shown. \<^verbatim>\<open>console.log\<close> lines carry no decision and are left out;
  \<^verbatim>\<open>console.error\<close> and \<^verbatim>\<open>console.warn\<close> are recorded.
\<close>

record world =
  tbl_leads :: "lead list"
  tbl_activities :: "activity list"
  leads :: "lead list"
  loading :: bool
  refreshTrigger :: nat
  selectedLeads :: "lead list"
  toasts :: "toast list"
  console :: "console_entry list"
  requests :: "request list"

type_synonym server = "nat \<Rightarrow> nat \<Rightarrow> response"

text \<open>
  A store that holds the rows \<open>db\<close> (the not-converted leads, newest first) and never
  fails: \<^verbatim>\<open>.range(from, to)\<close> is inclusive at both ends.
\<close>

definition static_store :: "lead list \<Rightarrow> server" where
  "static_store db from to =
     \<lparr>data = Some (take (to + 1 - from) (drop from db)), error = None\<rparr>"

section \<open>Paginated fetcher\<close>

definition batchSize :: nat where
  "batchSize = 1000"

definition maxIterations :: nat where
  "maxIterations = 100"

text \<open>
  \<^verbatim>\<open>loadRemaining\<close>, lines 183-223: a non-empty page is filtered and, when anything
  is left of it, merged into the displayed collection.
\<close>

definition mergePage :: "user \<Rightarrow> string list \<Rightarrow> lead list \<Rightarrow> world \<Rightarrow> world" where
  "mergePage currentUser subordinateIds rows w =
     (let filteredBatch = filterBatch currentUser subordinateIds rows
      in if length filteredBatch > 0
         then w\<lparr>leads := mergeLeads (leads w) filteredBatch\<rparr>
         else w)"

text \<open>
  \<^verbatim>\<open>loadRemaining\<close>, lines 150-229: the \<^verbatim>\<open>while\<close> loop. The result carries the
  final \<^verbatim>\<open>iterations\<close> and \<^verbatim>\<open>offset\<close> with the state. A request error logs and
  breaks; an empty or absent page clears \<^verbatim>\<open>hasMore\<close>; a short page clears it after the
  merge.
\<close>

function loadRemaining_loop ::
  "user \<Rightarrow> string list \<Rightarrow> server \<Rightarrow> bool \<Rightarrow> nat \<Rightarrow> nat \<Rightarrow> world \<Rightarrow> nat \<times> nat \<times> world" where
  "loadRemaining_loop currentUser subordinateIds srv hasMore iterations offset w =
     (if hasMore \<and> iterations < maxIterations then
        (let r = srv offset (offset + batchSize - 1);
             w1 = w\<lparr>requests := requests w @ [SelectRange offset (offset + batchSize - 1)]\<rparr>
         in case error r of
              Some e \<Rightarrow>
                (iterations + 1, offset,
                 w1\<lparr>console := console w1 @ [ConsoleError ''Error loading next batch:'']\<rparr>)
            | None \<Rightarrow>
                (case data r of
                   None \<Rightarrow>
                     loadRemaining_loop currentUser subordinateIds srv False
                       (iterations + 1) offset w1
                 | Some rows \<Rightarrow>
                     if length rows > 0 then
                       loadRemaining_loop currentUser subordinateIds srv
                         (if length rows < batchSize then False else hasMore)
                         (iterations + 1) (offset + batchSize)
                         (mergePage currentUser subordinateIds rows w1)
                     else
                       loadRemaining_loop currentUser subordinateIds srv False
                         (iterations + 1) offset w1))
      else (iterations, offset, w))"
  by pat_completeness auto
termination
  by (relation "measure (\<lambda>(cu, subs, srv, hasMore, iterations, offset, w).
        maxIterations - iterations)") auto

declare loadRemaining_loop.simps [simp del]

text \<open>\<^verbatim>\<open>loadRemaining\<close>, lines 231-237: what follows the loop.\<close>

definition loadRemaining_end :: "nat \<Rightarrow> world \<Rightarrow> world" where
  "loadRemaining_end iterations w =
     (let w1 = (if iterations \<ge> maxIterations
                then w\<lparr>console := console w @
                       [ConsoleWarn ''Reached maximum iterations, stopping lead fetch'']\<rparr>
                else w)
      in w1\<lparr>loading := False\<rparr>)"

definition loadRemaining :: "user \<Rightarrow> string list \<Rightarrow> server \<Rightarrow> nat \<Rightarrow> world \<Rightarrow> world" where
  "loadRemaining currentUser subordinateIds srv offset w =
     (case loadRemaining_loop currentUser subordinateIds srv True 0 offset w of
        (iterations, offset', w') \<Rightarrow> loadRemaining_end iterations w')"

text \<open>\<^verbatim>\<open>fetchLeads\<close>, lines 113-116: the subordinate set in force during a run.\<close>

definition subordinateIdsFor :: "user \<Rightarrow> string list \<Rightarrow> string list" where
  "subordinateIdsFor cu hierarchy =
     (if role cu \<in> set [''desk'', ''manager''] then hierarchy else [])"

text \<open>
  \<^verbatim>\<open>fetchLeads\<close>, lines 77-247, as one run: the first page, then the background
  continuation run to its end with nothing interleaved. \<open>hierarchy\<close> is what
  \<^verbatim>\<open>getSubordinateIds()\<close> answers; it is asked only for the roles desk and manager.
\<close>

definition fetchLeads :: "user option \<Rightarrow> string list \<Rightarrow> server \<Rightarrow> world \<Rightarrow> world" where
  "fetchLeads currentUser hierarchy srv w =
     (case currentUser of
        None \<Rightarrow> w
      | Some cu \<Rightarrow>
          (let w0 = w\<lparr>loading := True, leads := []\<rparr>;
               r = srv 0 (batchSize - 1);
               w1 = w0\<lparr>requests := requests w0 @ [SelectRange 0 (batchSize - 1)]\<rparr>
           in case error r of
                Some e \<Rightarrow>
                  w1\<lparr>console := console w1 @ [ConsoleError ''Error fetching leads:''],
                      toasts := toasts w1 @ [ToastError ''Failed to fetch leads''],
                      loading := False\<rparr>
              | None \<Rightarrow>
                  (let allLeads = (case data r of Some rows \<Rightarrow> rows | None \<Rightarrow> []);
                       offset = 0 + batchSize;
                       subordinateIds = subordinateIdsFor cu hierarchy;
                       filteredFirstBatch = filterFirstBatch cu subordinateIds allLeads;
                       w2 = w1\<lparr>leads := filteredFirstBatch\<rparr>
                   in loadRemaining cu subordinateIds srv offset w2)))"

text \<open>\<^verbatim>\<open>clearSelections\<close> and \<^verbatim>\<open>onActionComplete\<close> of \<^verbatim>\<open>SalesLeads\<close>, lines 249-257
  (the selection map of the table widget is not kept in the state).\<close>

definition clearSelections :: "world \<Rightarrow> world" where
  "clearSelections w = w\<lparr>selectedLeads := []\<rparr>"

definition onActionComplete :: "user option \<Rightarrow> string list \<Rightarrow> server \<Rightarrow> world \<Rightarrow> world" where
  "onActionComplete currentUser hierarchy srv w =
     clearSelections (fetchLeads currentUser hierarchy srv w)"

section \<open>Single-lead updates of the page\<close>

text \<open>An insert into \<^verbatim>\<open>lead_activities\<close>: the row is appended unless the request
  fails. No caller looks at the answer.\<close>

definition insertActivity :: "string option \<Rightarrow> activity \<Rightarrow> world \<Rightarrow> world" where
  "insertActivity insert_error a w =
     (let w1 = w\<lparr>requests := requests w @ [InsertActivity a]\<rparr>
      in case insert_error of
           Some e \<Rightarrow> w1
         | None \<Rightarrow> w1\<lparr>tbl_activities := tbl_activities w1 @ [a]\<rparr>)"

text \<open>\<^verbatim>\<open>handleStatusChange\<close> of \<^verbatim>\<open>SalesLeads\<close>, lines 341-367.\<close>

definition SalesLeads_handleStatusChange ::
  "string option \<Rightarrow> string option \<Rightarrow> string \<Rightarrow> string \<Rightarrow> world \<Rightarrow> world" where
  "SalesLeads_handleStatusChange update_error insert_error leadId newStatus w =
     (let w1 = w\<lparr>requests := requests w @ [UpdateStatusEq leadId newStatus]\<rparr>
      in case update_error of
           Some e \<Rightarrow>
             w1\<lparr>console := console w1 @ [ConsoleError ''Error updating status:''],
                 toasts := toasts w1 @ [ToastError ''Failed to update status'']\<rparr>
         | None \<Rightarrow>
             (let w2 = w1\<lparr>tbl_leads :=
                          map (\<lambda>lead. if lead_id lead = leadId
                                       then lead\<lparr>status := newStatus\<rparr> else lead)
                              (tbl_leads w1)\<rparr>;
                  w3 = insertActivity insert_error
                         \<lparr>act_lead_id = leadId, act_type = ''status_change'',
                          description = ''Status changed to '' @ newStatus\<rparr> w2;
                  w4 = w3\<lparr>toasts := toasts w3 @ [ToastSuccess ''Status updated successfully'']\<rparr>
              in w4\<lparr>leads :=
                      map (\<lambda>lead. if lead_id lead = leadId
                                   then lead\<lparr>status := newStatus\<rparr> else lead)
                          (leads w4)\<rparr>))"

text \<open>\<^verbatim>\<open>handleAssignAgent\<close> of \<^verbatim>\<open>SalesLeads\<close>, lines 369-402. \<^verbatim>\<open>agentId\<close> may be
  \<^verbatim>\<open>null\<close>, which unassigns the lead.\<close>

definition SalesLeads_handleAssignAgent ::
  "string option \<Rightarrow> string option \<Rightarrow> string \<Rightarrow> string option \<Rightarrow> world \<Rightarrow> world" where
  "SalesLeads_handleAssignAgent update_error insert_error leadId agentId w =
     (let w1 = w\<lparr>requests := requests w @ [UpdateAssignedEq leadId agentId]\<rparr>
      in case update_error of
           Some e \<Rightarrow>
             w1\<lparr>console := console w1 @ [ConsoleError ''Error assigning agent:''],
                 toasts := toasts w1 @ [ToastError ''Failed to assign agent'']\<rparr>
         | None \<Rightarrow>
             (let w2 = w1\<lparr>tbl_leads :=
                          map (\<lambda>lead. if lead_id lead = leadId
                                       then lead\<lparr>assigned_to := agentId\<rparr> else lead)
                              (tbl_leads w1)\<rparr>;
                  w3 = insertActivity insert_error
                         \<lparr>act_lead_id = leadId, act_type = ''assignment'',
                          description = (if js_truthy agentId then ''Lead assigned''
                                         else ''Lead unassigned'')\<rparr> w2;
                  w4 = w3\<lparr>toasts := toasts w3 @
                          [ToastSuccess (if js_truthy agentId
                                         then ''Lead assigned successfully''
                                         else ''Lead unassigned successfully'')]\<rparr>
              in w4\<lparr>leads :=
                      map (\<lambda>lead. if lead_id lead = leadId
                                   then lead\<lparr>assigned_to := agentId\<rparr> else lead)
                          (leads w4)\<rparr>))"

section \<open>Bulk actions\<close>

text \<open>\<^verbatim>\<open>checkUserRole\<close> of \<^verbatim>\<open>BulkActions\<close>, lines 25-28: the value given to
  \<^verbatim>\<open>setIsAdmin\<close>. \<^verbatim>\<open>user?.role\<close> of no user is \<^verbatim>\<open>undefined\<close>.\<close>

definition checkUserRole :: "user option \<Rightarrow> bool" where
  "checkUserRole u =
     (case u of None \<Rightarrow> False
              | Some usr \<Rightarrow> role usr = ''admin'' \<or> role usr = ''desk'')"

text \<open>The audit fan-out \<^verbatim>\<open>Promise.all(selectedLeads.map(lead => ...insert(...)))\<close>:
  one insert per selected lead, in order; \<open>insert_error i\<close> is the fate of the insert
  for the lead at position \<open>i\<close>.\<close>

fun insertAll :: "(nat \<Rightarrow> string option) \<Rightarrow> nat \<Rightarrow> activity list \<Rightarrow> world \<Rightarrow> world" where
  "insertAll insert_error i [] w = w"
| "insertAll insert_error i (a # as) w =
     insertAll insert_error (Suc i) as (insertActivity (insert_error i) a w)"

text \<open>\<^verbatim>\<open>handleStatusChange\<close> of \<^verbatim>\<open>BulkActions\<close>, lines 79-104. \<open>actionComplete\<close> is
  the \<^verbatim>\<open>onActionComplete\<close> property the parent passes in.\<close>

definition BulkActions_handleStatusChange ::
  "(world \<Rightarrow> world) \<Rightarrow> string option \<Rightarrow> (nat \<Rightarrow> string option) \<Rightarrow> string \<Rightarrow> world \<Rightarrow> world" where
  "BulkActions_handleStatusChange actionComplete update_error insert_error newStatus w =
     (let ids = map lead_id (selectedLeads w);
          w1 = w\<lparr>requests := requests w @ [UpdateStatusIn ids newStatus]\<rparr>
      in case update_error of
           Some e \<Rightarrow>
             w1\<lparr>console := console w1 @ [ConsoleError ''Error updating status:''],
                 toasts := toasts w1 @ [ToastError ''Failed to update status'']\<rparr>
         | None \<Rightarrow>
             (let w2 = w1\<lparr>tbl_leads :=
                          map (\<lambda>lead. if lead_id lead \<in> set ids
                                       then lead\<lparr>status := newStatus\<rparr> else lead)
                              (tbl_leads w1)\<rparr>;
                  w3 = insertAll insert_error 0
                         (map (\<lambda>lead. \<lparr>act_lead_id = lead_id lead,
                                        act_type = ''status_change'',
                                        description = ''Status changed to '' @ newStatus @
                                                      '' (bulk update)''\<rparr>)
                              (selectedLeads w2)) w2
              in actionComplete
                   (w3\<lparr>toasts := toasts w3 @
                        [ToastSuccess ''Status updated for selected leads'']\<rparr>)))"

text \<open>\<^verbatim>\<open>handleDeleteLeads\<close> of \<^verbatim>\<open>BulkActions\<close>, lines 133-157. \<open>isAdmin\<close> is the
  component's state cell, \<open>confirmed\<close> the answer of \<^verbatim>\<open>window.confirm\<close>.\<close>

definition handleDeleteLeads ::
  "(world \<Rightarrow> world) \<Rightarrow> bool \<Rightarrow> bool \<Rightarrow> string option \<Rightarrow> world \<Rightarrow> world" where
  "handleDeleteLeads actionComplete isAdmin confirmed delete_error w =
     (if \<not> isAdmin then
        w\<lparr>toasts := toasts w @ [ToastError ''Only admins can delete leads'']\<rparr>
      else if \<not> confirmed then w
      else
        (let ids = map lead_id (selectedLeads w);
             w1 = w\<lparr>requests := requests w @ [DeleteIn ids]\<rparr>
         in case delete_error of
              Some e \<Rightarrow>
                w1\<lparr>console := console w1 @ [ConsoleError ''Error deleting leads:''],
                    toasts := toasts w1 @ [ToastError ''Failed to delete leads'']\<rparr>
            | None \<Rightarrow>
                actionComplete
                  (w1\<lparr>tbl_leads := filter (\<lambda>lead. lead_id lead \<notin> set ids) (tbl_leads w1),
                      toasts := toasts w1 @ [ToastSuccess ''Leads deleted successfully'']\<rparr>)))"

section \<open>The invariant of the displayed collection, and sample data\<close>

text \<open>
  What the store guarantees of one page: the rows have pairwise different identities
  (the primary key) and none is converted (the \<^verbatim>\<open>.eq("is_converted", false)\<close> of the
  query). What the specification asks of the displayed collection: no identity twice,
  and every lead not converted and visible to the viewer.
\<close>

definition page_ok :: "lead list \<Rightarrow> bool" where
  "page_ok rows = (distinct (map lead_id rows) \<and> list_all (\<lambda>l. \<not> is_converted l) rows)"

definition displayed_ok :: "user \<Rightarrow> string list \<Rightarrow> lead list \<Rightarrow> bool" where
  "displayed_ok cu subs ds =
     (distinct (map lead_id ds)
      \<and> list_all (\<lambda>l. \<not> is_converted l \<and> visible cu subs l) ds)"

text \<open>Sample leads, viewers and states for the concrete instances below. The lead
  numbered \<open>n\<close> has an identity of \<open>n + 1\<close> characters, so different numbers give
  different identities.\<close>

definition ex_lead :: "nat \<Rightarrow> string option \<Rightarrow> lead" where
  "ex_lead n a =
     \<lparr>lead_id = replicate (Suc n) CHR ''L'', status = ''new'', assigned_to = a,
      desk = None, team = None, is_converted = False, created_at = n\<rparr>"

definition ex_viewer :: "string \<Rightarrow> string \<Rightarrow> user" where
  "ex_viewer uid r = \<lparr>user_id = uid, role = r, full_name = None\<rparr>"

definition ex_world :: "lead list \<Rightarrow> lead list \<Rightarrow> lead list \<Rightarrow> world" where
  "ex_world tbl shown sel =
     \<lparr>tbl_leads = tbl, tbl_activities = [], leads = shown, loading = False,
      refreshTrigger = 0, selectedLeads = sel, toasts = [], console = [], requests = []\<rparr>"

definition ex_db :: "nat \<Rightarrow> lead list" where
  "ex_db n = map (\<lambda>k. ex_lead k None) [0..<n]"

text \<open>A store that answers like \<open>static_store db\<close> below the offset \<open>k\<close> and with the
  error \<open>e\<close> from there on, and an audit sink that refuses exactly the insert at
  position \<open>n\<close>.\<close>

definition flaky_store :: "lead list \<Rightarrow> nat \<Rightarrow> string \<Rightarrow> server" where
  "flaky_store db k e from to =
     (if from < k then static_store db from to else \<lparr>data = None, error = Some e\<rparr>)"

definition fail_only_at :: "nat \<Rightarrow> nat \<Rightarrow> string option" where
  "fail_only_at n i = (if i = n then Some ''insert failed'' else None)"

section \<open>Properties of the filters\<close>

lemma filterFirstBatch_eq_filterBatch:
  "filterFirstBatch u subs ls = filterBatch u subs ls"
  by (simp add: filterFirstBatch_def filterBatch_def)

lemma filter_single: "(filter P [l] = [l]) = P l"
  by simp

lemma filterBatch_visible: "filterBatch u subs ls = filter (visible u subs) ls"
  unfolding visible_def filterBatch_def by (simp add: filter_single)

lemma filterFirstBatch_visible: "filterFirstBatch u subs ls = filter (visible u subs) ls"
  by (simp add: filterFirstBatch_eq_filterBatch filterBatch_visible)

lemma passesFirst_visible: "passesFirst u subs l = visible u subs l"
  by (simp add: passesFirst_def visible_def filterFirstBatch_eq_filterBatch)

section \<open>The background loop on a store that does not change\<close>

lemma loop_False: "loadRemaining_loop cu subs srv False it off w = (it, off, w)"
  by (simp add: loadRemaining_loop.simps)

lemma loop_done: "\<not> it < maxIterations \<Longrightarrow> loadRemaining_loop cu subs srv h it off w = (it, off, w)"
  by (simp add: loadRemaining_loop.simps)

lemma batchSize_pos [simp]: "0 < batchSize"
  by (simp add: batchSize_def)

lemma static_page:
  "data (static_store db off (off + batchSize - Suc 0)) = Some (take batchSize (drop off db))"
  "error (static_store db off (off + batchSize - Suc 0)) = None"
  by (simp_all add: static_store_def batchSize_def)

lemma loop_static_full:
  assumes "it < maxIterations" "off + batchSize \<le> length db"
  shows "loadRemaining_loop cu subs (static_store db) True it off w =
     loadRemaining_loop cu subs (static_store db) True (Suc it) (off + batchSize)
       (mergePage cu subs (take batchSize (drop off db))
          (w\<lparr>requests := requests w @ [SelectRange off (off + batchSize - 1)]\<rparr>))"
  using assms
  by (subst loadRemaining_loop.simps) (simp add: static_page Let_def)

lemma loop_static_short:
  assumes "it < maxIterations" "off < length db" "length db < off + batchSize"
  shows "loadRemaining_loop cu subs (static_store db) True it off w =
     (Suc it, off + batchSize,
       mergePage cu subs (take batchSize (drop off db))
          (w\<lparr>requests := requests w @ [SelectRange off (off + batchSize - 1)]\<rparr>))"
proof -
  have "length db - off < batchSize" "0 < length db - off" using assms by arith+
  then show ?thesis using assms(1)
    by (subst loadRemaining_loop.simps) (simp add: static_page Let_def loop_False)
qed

lemma loop_static_empty:
  assumes "it < maxIterations" "length db \<le> off"
  shows "loadRemaining_loop cu subs (static_store db) True it off w =
     (Suc it, off, w\<lparr>requests := requests w @ [SelectRange off (off + batchSize - 1)]\<rparr>)"
  using assms
  by (subst loadRemaining_loop.simps) (simp add: static_page Let_def loop_False)

lemma requests_mergePage [simp]: "requests (mergePage cu subs rows w) = requests w"
  by (simp add: mergePage_def Let_def)

lemma loop_static_requests:
  assumes "off = batchSize * Suc it" "it < maxIterations"
  shows "requests (snd (snd (loadRemaining_loop cu subs (static_store db) True it off w))) =
     requests w @ map (\<lambda>k. SelectRange (batchSize * k) (batchSize * k + batchSize - 1))
        [Suc it ..< Suc it + min (maxIterations - it) (max 1 (length db div batchSize - it))]"
  using assms
proof (induction "maxIterations - it" arbitrary: it off w)
  case 0
  then show ?case by simp
next
  case (Suc n)
  let ?q = "length db div batchSize"
  let ?f = "\<lambda>k. SelectRange (batchSize * k) (batchSize * k + batchSize - 1)"
  let ?w1 = "w\<lparr>requests := requests w @ [SelectRange off (off + batchSize - 1)]\<rparr>"
  have f_it: "?f (Suc it) = SelectRange off (off + batchSize - 1)"
    using Suc.prems by simp
  consider (full) "off + batchSize \<le> length db" 
    | (short) "off < length db" "length db < off + batchSize"
    | (empty) "length db \<le> off" by linarith
  then show ?case
  proof cases
    case full
    then have q: "it + 2 \<le> ?q"
      using Suc.prems(1) by (simp add: batchSize_def less_eq_div_iff_mult_less_eq)
    show ?thesis
    proof (cases "Suc it < maxIterations")
      case True
      have n: "n = maxIterations - Suc it" using Suc.hyps(2) by simp
      have off': "off + batchSize = batchSize * Suc (Suc it)" using Suc.prems(1) by simp
      have cnt: "Suc it + min (maxIterations - it) (max 1 (?q - it)) =
                 Suc (Suc it) + min (maxIterations - Suc it) (max 1 (?q - Suc it))"
        using q True by simp
      have "Suc it < Suc (Suc it) + min (maxIterations - Suc it) (max 1 (?q - Suc it))" by simp
      then have upt: "[Suc it ..< Suc (Suc it) + min (maxIterations - Suc it) (max 1 (?q - Suc it))]
           = Suc it # [Suc (Suc it) ..< Suc (Suc it) + min (maxIterations - Suc it) (max 1 (?q - Suc it))]"
        by (rule upt_conv_Cons)
      show ?thesis 
        unfolding loop_static_full[OF Suc.prems(2) full] Suc.hyps(1)[OF n off' True] cnt upt
        using f_it by simp
    next
      case False
      then have e: "maxIterations - it = 1" using Suc.prems(2) by simp
      show ?thesis
        unfolding loop_static_full[OF Suc.prems(2) full] loop_done[OF False] e
        using f_it by simp
    qed
  next
    case short
    then have "?q < Suc (Suc it)"
      using Suc.prems(1) by (simp add: div_less_iff_less_mult mult.commute)
    then have q: "?q \<le> Suc it" by simp
    then have c: "min (maxIterations - it) (max 1 (?q - it)) = 1" using Suc.prems(2) by simp
    show ?thesis unfolding loop_static_short[OF Suc.prems(2) short] c using f_it by simp
  next
    case empty
    then have "length db < Suc (Suc it) * batchSize"
      using Suc.prems(1) by (simp add: batchSize_def)
    then have "?q < Suc (Suc it)"
      by (simp only: div_less_iff_less_mult[OF batchSize_pos])
    then have q: "?q \<le> Suc it" by simp
    then have c: "min (maxIterations - it) (max 1 (?q - it)) = 1" using Suc.prems(2) by simp
    show ?thesis unfolding loop_static_empty[OF Suc.prems(2) empty] c using f_it by simp
  qed
qed


lemma loop_exit:
  "\<not> (h \<and> it < maxIterations) \<Longrightarrow> loadRemaining_loop cu subs srv h it off w = (it, off, w)"
  by (subst loadRemaining_loop.simps) auto

lemma loop_preserves:
  assumes step_req: "\<And>w x. P w \<Longrightarrow> P (w\<lparr>requests := x\<rparr>)"
      and step_con: "\<And>w x. P w \<Longrightarrow> P (w\<lparr>console := x\<rparr>)"
      and step_merge: "\<And>w from to rows. P w \<Longrightarrow> data (srv from to) = Some rows
                          \<Longrightarrow> P (mergePage cu subs rows w)"
      and init: "P w"
  shows "P (snd (snd (loadRemaining_loop cu subs srv h it off w)))"
  using init
proof (induction "maxIterations - it" arbitrary: h it off w)
  case 0
  then show ?case by (simp add: loop_exit)
next
  case (Suc n)
  show ?case
  proof (cases "h \<and> it < maxIterations")
    case False
    then show ?thesis using Suc.prems by (simp add: loop_exit)
  next
    case True
    let ?r = "srv off (off + batchSize - 1)"
    let ?w1 = "w\<lparr>requests := requests w @ [SelectRange off (off + batchSize - 1)]\<rparr>"
    have n: "n = maxIterations - (it + 1)" using Suc.hyps(2) by simp
    have P1: "P ?w1" using Suc.prems by (rule step_req)
    show ?thesis
    proof (cases "error ?r")
      case (Some e)
      then show ?thesis using True P1
        by (subst loadRemaining_loop.simps) (simp add: Let_def step_con)
    next
      case None
      show ?thesis
      proof (cases "data ?r")
        case dn: None
        have "P (snd (snd (loadRemaining_loop cu subs srv False (it + 1) off ?w1)))"
          using Suc.hyps(1)[OF n P1] .
        then show ?thesis using True None dn
          by (subst loadRemaining_loop.simps) (simp add: Let_def)
      next
        case (Some rows)
        show ?thesis
        proof (cases "0 < length rows")
          case pos: True
          have "P (mergePage cu subs rows ?w1)" using P1 Some by (rule step_merge)
          then have "P (snd (snd (loadRemaining_loop cu subs srv
                        (if length rows < batchSize then False else h) (it + 1)
                        (off + batchSize) (mergePage cu subs rows ?w1))))"
            using Suc.hyps(1)[OF n] by simp
          then show ?thesis using True None Some pos
            by (subst loadRemaining_loop.simps) (simp add: Let_def)
        next
          case npos: False
          have "P (snd (snd (loadRemaining_loop cu subs srv False (it + 1) off ?w1)))"
            using Suc.hyps(1)[OF n P1] .
          then show ?thesis using True None Some npos
            by (subst loadRemaining_loop.simps) (simp add: Let_def)
        qed
      qed
    qed
  qed
qed

section \<open>Visibility and merge\<close>

lemma visible_unknown_role:
  "role u \<notin> {''admin'', ''desk'', ''manager'', ''agent''} \<Longrightarrow> visible u subs l"
  by (simp add: visible_def filterBatch_def)

lemma visible_admin: "role u = ''admin'' \<Longrightarrow> visible u subs l"
  by (simp add: visible_def filterBatch_def)

lemma visible_agent:
  "role a = ''agent'' \<Longrightarrow> visible a subs l = (assigned_to l = Some (user_id a))"
  by (simp add: visible_def filterBatch_def)

lemma visible_manager:
  "role v = ''manager'' \<Longrightarrow>
   visible v S l = (assigned_to l = Some (user_id v)
                    \<or> (\<exists>a. assigned_to l = Some a \<and> a \<noteq> [] \<and> a \<in> set S))"
  by (auto simp add: visible_def filterBatch_def js_truthy_def js_includes_def
           split: option.splits)

text \<open>
  C3. For a viewer whose role is none of admin, desk, manager and agent, the filter of
  the first page and the filter of every background page return the batch unchanged.
\<close>

theorem C3_unknown_role_unfiltered:
  assumes "role u \<notin> {''admin'', ''desk'', ''manager'', ''agent''}"
  shows "filterFirstBatch u subs batch = batch \<and> filterBatch u subs batch = batch"
  using assms by (simp add: filterFirstBatch_def filterBatch_def)

theorem C3_unknown_role_unfiltered_witness:
  "role (ex_viewer ''u9'' ''supervisor'') \<notin> {''admin'', ''desk'', ''manager'', ''agent''}
   \<and> (filterFirstBatch (ex_viewer ''u9'' ''supervisor'') [''u2'']
         [ex_lead 0 None, ex_lead 1 (Some ''u2'')] = [ex_lead 0 None, ex_lead 1 (Some ''u2'')]
      \<and> filterBatch (ex_viewer ''u9'' ''supervisor'') [''u2'']
         [ex_lead 0 None, ex_lead 1 (Some ''u2'')] = [ex_lead 0 None, ex_lead 1 (Some ''u2'')])"
proof -
  have h: "role (ex_viewer ''u9'' ''supervisor'') \<notin> {''admin'', ''desk'', ''manager'', ''agent''}"
    by (simp add: ex_viewer_def)
  from h C3_unknown_role_unfiltered[OF h] show ?thesis by (rule conjI)
qed

text \<open>
  C9. For a viewer with role agent, whatever the subordinate set, a lead passes the
  filter exactly when its \<^verbatim>\<open>assigned_to\<close> is the viewer's identity, on the first page
  and on every background page.
\<close>

theorem C9_agent_visibility:
  assumes "role a = ''agent''"
  shows "passesFirst a subs l = (assigned_to l = Some (user_id a))
       \<and> visible a subs l = (assigned_to l = Some (user_id a))
       \<and> filterFirstBatch a subs batch = filter (\<lambda>x. assigned_to x = Some (user_id a)) batch
       \<and> filterBatch a subs batch = filter (\<lambda>x. assigned_to x = Some (user_id a)) batch"
  using assms
  by (simp add: passesFirst_visible visible_agent filterFirstBatch_def filterBatch_def)

theorem C9_agent_visibility_witness:
  "role (ex_viewer ''u1'' ''agent'') = ''agent''
   \<and> (passesFirst (ex_viewer ''u1'' ''agent'') [''u2''] (ex_lead 0 (Some ''u1''))
        = (assigned_to (ex_lead 0 (Some ''u1'')) = Some (user_id (ex_viewer ''u1'' ''agent'')))
      \<and> visible (ex_viewer ''u1'' ''agent'') [''u2''] (ex_lead 0 (Some ''u1''))
        = (assigned_to (ex_lead 0 (Some ''u1'')) = Some (user_id (ex_viewer ''u1'' ''agent'')))
      \<and> filterFirstBatch (ex_viewer ''u1'' ''agent'') [''u2'']
           [ex_lead 0 (Some ''u1''), ex_lead 1 (Some ''u2'')]
        = filter (\<lambda>x. assigned_to x = Some (user_id (ex_viewer ''u1'' ''agent'')))
           [ex_lead 0 (Some ''u1''), ex_lead 1 (Some ''u2'')]
      \<and> filterBatch (ex_viewer ''u1'' ''agent'') [''u2'']
           [ex_lead 0 (Some ''u1''), ex_lead 1 (Some ''u2'')]
        = filter (\<lambda>x. assigned_to x = Some (user_id (ex_viewer ''u1'' ''agent'')))
           [ex_lead 0 (Some ''u1''), ex_lead 1 (Some ''u2'')])"
proof -
  have h: "role (ex_viewer ''u1'' ''agent'') = ''agent''"
    by (simp add: ex_viewer_def)
  from h C9_agent_visibility[OF h] show ?thesis by (rule conjI)
qed

text \<open>
  C5. User identities are keys of \<^verbatim>\<open>user_profiles\<close>, so the empty string is not one
  and does not occur in a subordinate set. For a viewer with role manager and such a
  subordinate set, a lead passes the filter, on the first page and on every background
  page, exactly when its \<^verbatim>\<open>assigned_to\<close> is the viewer's identity or a member of the
  subordinate set. With viewer u1 and subordinates u2, u3, of leads assigned to u1, u2
  and u4 the filter keeps the first two.
\<close>

theorem C5_manager_visibility:
  assumes "role v = ''manager''" and "[] \<notin> set S"
  shows "visible v S l = (assigned_to l = Some (user_id v) \<or> assigned_to l \<in> Some ` set S)
       \<and> passesFirst v S l
           = (assigned_to l = Some (user_id v) \<or> assigned_to l \<in> Some ` set S)
       \<and> filterFirstBatch v S batch
           = filter (\<lambda>x. assigned_to x = Some (user_id v) \<or> assigned_to x \<in> Some ` set S) batch
       \<and> filterBatch v S batch
           = filter (\<lambda>x. assigned_to x = Some (user_id v) \<or> assigned_to x \<in> Some ` set S) batch
       \<and> (user_id v = ''u1'' \<longrightarrow> assigned_to l1 = Some ''u1'' \<longrightarrow>
            assigned_to l2 = Some ''u2'' \<longrightarrow> assigned_to l4 = Some ''u4'' \<longrightarrow>
            filterFirstBatch v [''u2'', ''u3''] [l1, l2, l4] = [l1, l2]
            \<and> filterBatch v [''u2'', ''u3''] [l1, l2, l4] = [l1, l2])"
proof -
  have vis: "\<And>x. visible v S x
               = (assigned_to x = Some (user_id v) \<or> assigned_to x \<in> Some ` set S)"
    using assms(2) unfolding visible_manager[OF assms(1)] by auto
  have a: "visible v S l = (assigned_to l = Some (user_id v) \<or> assigned_to l \<in> Some ` set S)"
    by (rule vis)
  have b: "passesFirst v S l
             = (assigned_to l = Some (user_id v) \<or> assigned_to l \<in> Some ` set S)"
    unfolding passesFirst_visible by (rule vis)
  have c: "filterFirstBatch v S batch
             = filter (\<lambda>x. assigned_to x = Some (user_id v) \<or> assigned_to x \<in> Some ` set S) batch"
    unfolding filterFirstBatch_visible by (rule filter_cong[OF refl]) (rule vis)
  have d: "filterBatch v S batch
             = filter (\<lambda>x. assigned_to x = Some (user_id v) \<or> assigned_to x \<in> Some ` set S) batch"
    unfolding filterBatch_visible by (rule filter_cong[OF refl]) (rule vis)
  have e: "user_id v = ''u1'' \<longrightarrow> assigned_to l1 = Some ''u1'' \<longrightarrow>
            assigned_to l2 = Some ''u2'' \<longrightarrow> assigned_to l4 = Some ''u4'' \<longrightarrow>
            filterFirstBatch v [''u2'', ''u3''] [l1, l2, l4] = [l1, l2]
            \<and> filterBatch v [''u2'', ''u3''] [l1, l2, l4] = [l1, l2]"
    using assms(1)
    by (simp add: filterFirstBatch_def filterBatch_def js_truthy_def js_includes_def)
  show ?thesis by (intro conjI) (rule a b c d e)+
qed

theorem C5_manager_visibility_witness:
  "role (ex_viewer ''u1'' ''manager'') = ''manager''
   \<and> [] \<notin> set [''u2'', ''u3'']
   \<and> user_id (ex_viewer ''u1'' ''manager'') = ''u1''
   \<and> assigned_to (ex_lead 0 (Some ''u1'')) = Some ''u1''
   \<and> assigned_to (ex_lead 2 (Some ''u2'')) = Some ''u2''
   \<and> assigned_to (ex_lead 3 (Some ''u4'')) = Some ''u4''
   \<and> visible (ex_viewer ''u1'' ''manager'') [''u2'', ''u3''] (ex_lead 2 (Some ''u2''))
      = (assigned_to (ex_lead 2 (Some ''u2'')) = Some (user_id (ex_viewer ''u1'' ''manager''))
         \<or> assigned_to (ex_lead 2 (Some ''u2'')) \<in> Some ` set [''u2'', ''u3''])
   \<and> filterFirstBatch (ex_viewer ''u1'' ''manager'') [''u2'', ''u3'']
        [ex_lead 0 (Some ''u1''), ex_lead 2 (Some ''u2''), ex_lead 3 (Some ''u4'')]
      = [ex_lead 0 (Some ''u1''), ex_lead 2 (Some ''u2'')]
   \<and> filterBatch (ex_viewer ''u1'' ''manager'') [''u2'', ''u3'']
        [ex_lead 0 (Some ''u1''), ex_lead 2 (Some ''u2''), ex_lead 3 (Some ''u4'')]
      = [ex_lead 0 (Some ''u1''), ex_lead 2 (Some ''u2'')]"
proof -
  let ?v = "ex_viewer ''u1'' ''manager''"
  have h: "role ?v = ''manager''" by (simp add: ex_viewer_def)
  have e: "[] \<notin> set [''u2'', ''u3'']" by simp
  have i: "user_id ?v = ''u1''" by (simp add: ex_viewer_def)
  have a1: "assigned_to (ex_lead 0 (Some ''u1'')) = Some ''u1''" by (simp add: ex_lead_def)
  have a2: "assigned_to (ex_lead 2 (Some ''u2'')) = Some ''u2''" by (simp add: ex_lead_def)
  have a4: "assigned_to (ex_lead 3 (Some ''u4'')) = Some ''u4''" by (simp add: ex_lead_def)
  note t = C5_manager_visibility[OF h e, where l = "ex_lead 2 (Some ''u2'')"
             and ?l1.0 = "ex_lead 0 (Some ''u1'')" and ?l2.0 = "ex_lead 2 (Some ''u2'')"
             and ?l4.0 = "ex_lead 3 (Some ''u4'')"]
  from t have v: "visible ?v [''u2'', ''u3''] (ex_lead 2 (Some ''u2''))
      = (assigned_to (ex_lead 2 (Some ''u2'')) = Some (user_id ?v)
         \<or> assigned_to (ex_lead 2 (Some ''u2'')) \<in> Some ` set [''u2'', ''u3''])"
    by blast
  from t i a1 a2 a4 have f:
    "filterFirstBatch ?v [''u2'', ''u3'']
        [ex_lead 0 (Some ''u1''), ex_lead 2 (Some ''u2''), ex_lead 3 (Some ''u4'')]
      = [ex_lead 0 (Some ''u1''), ex_lead 2 (Some ''u2'')]
     \<and> filterBatch ?v [''u2'', ''u3'']
        [ex_lead 0 (Some ''u1''), ex_lead 2 (Some ''u2''), ex_lead 3 (Some ''u4'')]
      = [ex_lead 0 (Some ''u1''), ex_lead 2 (Some ''u2'')]"
    by blast
  show ?thesis by (intro conjI) (rule h e i a1 a2 a4 v conjunct1[OF f] conjunct2[OF f])+
qed

text \<open>
  C6. Merging a page into the displayed collection a second time changes nothing, and
  a merge appends to the collection exactly the leads of the page whose identity does
  not occur in it: a lead whose identity is already displayed is never added.
\<close>

theorem C6_merge_idempotent:
  "mergeLeads (mergeLeads D B) B = mergeLeads D B
   \<and> mergeLeads D B = D @ filter (\<lambda>l. lead_id l \<notin> lead_id ` set D) B"
proof -
  have eq: "\<And>D B. mergeLeads D B = D @ filter (\<lambda>l. lead_id l \<notin> lead_id ` set D) B"
    by (simp add: mergeLeads_def Let_def)
  have "filter (\<lambda>l. lead_id l \<notin> lead_id ` set (mergeLeads D B)) B = []"
    unfolding eq by (auto simp add: filter_empty_conv)
  then have idem: "mergeLeads (mergeLeads D B) B = mergeLeads D B"
    by (simp add: eq[of "mergeLeads D B" B])
  from idem eq[of D B] show ?thesis by (rule conjI)
qed

section \<open>Failure of a background page, and single-lead updates\<close>

text \<open>
  C7. When a background page request answers with an error, the loop stops there: the
  failing request is the last one sent, the error is written to the console, and the
  displayed collection is what it was before the request, also after the lines that
  follow the loop.
\<close>

theorem C7_background_error_halts:
  assumes "error (srv offset (offset + batchSize - 1)) = Some e"
      and "iterations < maxIterations"
  shows "loadRemaining_loop cu subs srv True iterations offset w =
           (Suc iterations, offset,
            w\<lparr>requests := requests w @ [SelectRange offset (offset + batchSize - 1)],
              console := console w @ [ConsoleError ''Error loading next batch:'']\<rparr>)
       \<and> leads (loadRemaining_end (Suc iterations)
            (snd (snd (loadRemaining_loop cu subs srv True iterations offset w)))) = leads w
       \<and> requests (loadRemaining_end (Suc iterations)
            (snd (snd (loadRemaining_loop cu subs srv True iterations offset w))))
           = requests w @ [SelectRange offset (offset + batchSize - 1)]
       \<and> ConsoleError ''Error loading next batch:'' \<in> set (console (loadRemaining_end (Suc iterations)
            (snd (snd (loadRemaining_loop cu subs srv True iterations offset w)))))"
proof -
  have eq: "loadRemaining_loop cu subs srv True iterations offset w =
           (Suc iterations, offset,
            w\<lparr>requests := requests w @ [SelectRange offset (offset + batchSize - 1)],
              console := console w @ [ConsoleError ''Error loading next batch:'']\<rparr>)"
    using assms by (subst loadRemaining_loop.simps) (simp add: Let_def)
  show ?thesis unfolding eq by (simp add: loadRemaining_end_def Let_def)
qed

theorem C7_background_error_halts_witness:
  "error (flaky_store (ex_db 3) 2000 ''timeout'' 2000 (2000 + batchSize - 1)) = Some ''timeout''
   \<and> (1::nat) < maxIterations
   \<and> leads (loadRemaining_end (Suc 1)
        (snd (snd (loadRemaining_loop (ex_viewer ''u0'' ''admin'') []
           (flaky_store (ex_db 3) 2000 ''timeout'') True 1 2000
           (ex_world (ex_db 3) (ex_db 3) []))))) = leads (ex_world (ex_db 3) (ex_db 3) [])
   \<and> requests (loadRemaining_end (Suc 1)
        (snd (snd (loadRemaining_loop (ex_viewer ''u0'' ''admin'') []
           (flaky_store (ex_db 3) 2000 ''timeout'') True 1 2000
           (ex_world (ex_db 3) (ex_db 3) [])))))
       = requests (ex_world (ex_db 3) (ex_db 3) []) @ [SelectRange 2000 (2000 + batchSize - 1)]"
proof -
  have h1: "error (flaky_store (ex_db 3) 2000 ''timeout'' 2000 (2000 + batchSize - 1)) = Some ''timeout''"
    by (simp add: flaky_store_def)
  have h2: "(1::nat) < maxIterations" by (simp add: maxIterations_def)
  note t = C7_background_error_halts[where srv = "flaky_store (ex_db 3) 2000 ''timeout''"
             and offset = 2000 and iterations = 1 and e = "''timeout''"
             and cu = "ex_viewer ''u0'' ''admin''" and subs = "[]"
             and w = "ex_world (ex_db 3) (ex_db 3) []", OF h1 h2]
  from t have a: "leads (loadRemaining_end (Suc 1)
        (snd (snd (loadRemaining_loop (ex_viewer ''u0'' ''admin'') []
           (flaky_store (ex_db 3) 2000 ''timeout'') True 1 2000
           (ex_world (ex_db 3) (ex_db 3) []))))) = leads (ex_world (ex_db 3) (ex_db 3) [])"
    by blast
  from t have b: "requests (loadRemaining_end (Suc 1)
        (snd (snd (loadRemaining_loop (ex_viewer ''u0'' ''admin'') []
           (flaky_store (ex_db 3) 2000 ''timeout'') True 1 2000
           (ex_world (ex_db 3) (ex_db 3) [])))))
       = requests (ex_world (ex_db 3) (ex_db 3) []) @ [SelectRange 2000 (2000 + batchSize - 1)]"
    by blast
  from h1 h2 a b show ?thesis by blast
qed

text \<open>
  C10. A single-lead status change that the store accepts rewrites the displayed
  collection in place: the leads with the target identity get the new status and keep
  every other field, all other leads stay as they are, length and order are kept. The
  same holds for a single-lead assignment with \<^verbatim>\<open>assigned_to\<close>. Neither sends a page
  request nor touches the refresh trigger: the only requests are the update and the
  audit insert.
\<close>

theorem C10_single_lead_update_in_place:
  "leads (SalesLeads_handleStatusChange None ie leadId newStatus w)
     = map (\<lambda>l. if lead_id l = leadId then l\<lparr>status := newStatus\<rparr> else l) (leads w)
   \<and> length (leads (SalesLeads_handleStatusChange None ie leadId newStatus w)) = length (leads w)
   \<and> map lead_id (leads (SalesLeads_handleStatusChange None ie leadId newStatus w))
       = map lead_id (leads w)
   \<and> map (\<lambda>l. l\<lparr>status := ''''\<rparr>) (leads (SalesLeads_handleStatusChange None ie leadId newStatus w))
       = map (\<lambda>l. l\<lparr>status := ''''\<rparr>) (leads w)
   \<and> refreshTrigger (SalesLeads_handleStatusChange None ie leadId newStatus w) = refreshTrigger w
   \<and> requests (SalesLeads_handleStatusChange None ie leadId newStatus w)
       = requests w @ [UpdateStatusEq leadId newStatus,
                       InsertActivity \<lparr>act_lead_id = leadId, act_type = ''status_change'',
                                       description = ''Status changed to '' @ newStatus\<rparr>]
   \<and> leads (SalesLeads_handleAssignAgent None ie leadId agentId w)
       = map (\<lambda>l. if lead_id l = leadId then l\<lparr>assigned_to := agentId\<rparr> else l) (leads w)
   \<and> length (leads (SalesLeads_handleAssignAgent None ie leadId agentId w)) = length (leads w)
   \<and> map lead_id (leads (SalesLeads_handleAssignAgent None ie leadId agentId w))
       = map lead_id (leads w)
   \<and> map (\<lambda>l. l\<lparr>assigned_to := None\<rparr>) (leads (SalesLeads_handleAssignAgent None ie leadId agentId w))
       = map (\<lambda>l. l\<lparr>assigned_to := None\<rparr>) (leads w)
   \<and> refreshTrigger (SalesLeads_handleAssignAgent None ie leadId agentId w) = refreshTrigger w
   \<and> requests (SalesLeads_handleAssignAgent None ie leadId agentId w)
       = requests w @ [UpdateAssignedEq leadId agentId,
                       InsertActivity \<lparr>act_lead_id = leadId, act_type = ''assignment'',
                                       description = (if js_truthy agentId then ''Lead assigned''
                                                      else ''Lead unassigned'')\<rparr>]"
proof -
  have ins: "\<And>x a v. leads (insertActivity x a v) = leads v
                    \<and> refreshTrigger (insertActivity x a v) = refreshTrigger v
                    \<and> toasts (insertActivity x a v) = toasts v
                    \<and> requests (insertActivity x a v) = requests v @ [InsertActivity a]"
    by (simp add: insertActivity_def Let_def split: option.splits)
  have m1: "map lead_id (map (\<lambda>l. if lead_id l = leadId then l\<lparr>status := newStatus\<rparr> else l) (leads w))
              = map lead_id (leads w)"
    by (auto simp add: comp_def intro: map_cong)
  have m2: "map lead_id (map (\<lambda>l. if lead_id l = leadId then l\<lparr>assigned_to := agentId\<rparr> else l) (leads w))
              = map lead_id (leads w)"
    by (auto simp add: comp_def intro: map_cong)
  have m3: "map (\<lambda>l. l\<lparr>status := ''''\<rparr>) (map (\<lambda>l. if lead_id l = leadId then l\<lparr>status := newStatus\<rparr> else l) (leads w))
              = map (\<lambda>l. l\<lparr>status := ''''\<rparr>) (leads w)"
    by (auto simp add: comp_def intro: map_cong)
  have m4: "map (\<lambda>l. l\<lparr>assigned_to := None\<rparr>) (map (\<lambda>l. if lead_id l = leadId then l\<lparr>assigned_to := agentId\<rparr> else l) (leads w))
              = map (\<lambda>l. l\<lparr>assigned_to := None\<rparr>) (leads w)"
    by (auto simp add: comp_def intro: map_cong)
  have s: "leads (SalesLeads_handleStatusChange None ie leadId newStatus w)
     = map (\<lambda>l. if lead_id l = leadId then l\<lparr>status := newStatus\<rparr> else l) (leads w)
     \<and> refreshTrigger (SalesLeads_handleStatusChange None ie leadId newStatus w) = refreshTrigger w
     \<and> requests (SalesLeads_handleStatusChange None ie leadId newStatus w)
       = requests w @ [UpdateStatusEq leadId newStatus,
                       InsertActivity \<lparr>act_lead_id = leadId, act_type = ''status_change'',
                                       description = ''Status changed to '' @ newStatus\<rparr>]"
    by (simp add: SalesLeads_handleStatusChange_def Let_def ins)
  have a: "leads (SalesLeads_handleAssignAgent None ie leadId agentId w)
       = map (\<lambda>l. if lead_id l = leadId then l\<lparr>assigned_to := agentId\<rparr> else l) (leads w)
     \<and> refreshTrigger (SalesLeads_handleAssignAgent None ie leadId agentId w) = refreshTrigger w
     \<and> requests (SalesLeads_handleAssignAgent None ie leadId agentId w)
       = requests w @ [UpdateAssignedEq leadId agentId,
                       InsertActivity \<lparr>act_lead_id = leadId, act_type = ''assignment'',
                                       description = (if js_truthy agentId then ''Lead assigned''
                                                      else ''Lead unassigned'')\<rparr>]"
    by (simp add: SalesLeads_handleAssignAgent_def Let_def ins)
  show ?thesis
    using s a m1 m2 m3 m4 by simp
qed

section \<open>Bulk actions: audit fan-out and the deletion gate\<close>

lemma mergePage_frame:
  "toasts (mergePage cu subs rows w) = toasts w
   \<and> tbl_leads (mergePage cu subs rows w) = tbl_leads w
   \<and> tbl_activities (mergePage cu subs rows w) = tbl_activities w
   \<and> selectedLeads (mergePage cu subs rows w) = selectedLeads w
   \<and> refreshTrigger (mergePage cu subs rows w) = refreshTrigger w"
  by (simp add: mergePage_def Let_def)

lemma loop_frame:
  "toasts (snd (snd (loadRemaining_loop cu subs srv h it off w))) = toasts w
   \<and> tbl_leads (snd (snd (loadRemaining_loop cu subs srv h it off w))) = tbl_leads w
   \<and> tbl_activities (snd (snd (loadRemaining_loop cu subs srv h it off w))) = tbl_activities w
   \<and> selectedLeads (snd (snd (loadRemaining_loop cu subs srv h it off w))) = selectedLeads w
   \<and> refreshTrigger (snd (snd (loadRemaining_loop cu subs srv h it off w))) = refreshTrigger w"
  by (rule loop_preserves[where P = "\<lambda>x. toasts x = toasts w \<and> tbl_leads x = tbl_leads w
        \<and> tbl_activities x = tbl_activities w \<and> selectedLeads x = selectedLeads w
        \<and> refreshTrigger x = refreshTrigger w"]) (simp_all add: mergePage_frame)

lemma loadRemaining_frame:
  "toasts (loadRemaining cu subs srv off w) = toasts w
   \<and> tbl_leads (loadRemaining cu subs srv off w) = tbl_leads w
   \<and> tbl_activities (loadRemaining cu subs srv off w) = tbl_activities w
   \<and> selectedLeads (loadRemaining cu subs srv off w) = selectedLeads w
   \<and> refreshTrigger (loadRemaining cu subs srv off w) = refreshTrigger w"
proof -
  obtain i p v where r: "loadRemaining_loop cu subs srv True 0 off w = (i, p, v)"
    by (cases "loadRemaining_loop cu subs srv True 0 off w") auto
  from loop_frame[of cu subs srv True 0 off w] r show ?thesis
    by (simp add: loadRemaining_def loadRemaining_end_def Let_def)
qed

lemma fetchLeads_frame:
  assumes "error (srv 0 (batchSize - 1)) = None"
  shows "toasts (fetchLeads u hier srv w) = toasts w
   \<and> tbl_leads (fetchLeads u hier srv w) = tbl_leads w
   \<and> tbl_activities (fetchLeads u hier srv w) = tbl_activities w
   \<and> selectedLeads (fetchLeads u hier srv w) = selectedLeads w
   \<and> refreshTrigger (fetchLeads u hier srv w) = refreshTrigger w"
  using assms
  by (cases u) (simp_all add: fetchLeads_def Let_def loadRemaining_frame)

lemma insertActivity_frame:
  "leads (insertActivity x a v) = leads v
   \<and> tbl_leads (insertActivity x a v) = tbl_leads v
   \<and> selectedLeads (insertActivity x a v) = selectedLeads v
   \<and> refreshTrigger (insertActivity x a v) = refreshTrigger v
   \<and> toasts (insertActivity x a v) = toasts v
   \<and> console (insertActivity x a v) = console v
   \<and> loading (insertActivity x a v) = loading v
   \<and> requests (insertActivity x a v) = requests v @ [InsertActivity a]"
  by (simp add: insertActivity_def Let_def split: option.splits)

text \<open>
  C8. In a bulk status update of three selected leads where the store accepts the
  update and refuses the audit insert of the second lead only: one update keyed by the
  three identities is sent and every lead of the table with one of them carries the new
  status; three inserts are sent, one per lead and none twice, of which the first and
  the third are appended to the audit table; nothing is undone; one success
  notification is added and no other, also after the parent's refetch when its first
  page does not fail.
\<close>

theorem C8_bulk_status_partial_audit_failure:
  assumes "selectedLeads w = [a, b, c]"
      and "insert_error 0 = None" and "insert_error 1 = Some e" and "insert_error 2 = None"
  shows "BulkActions_handleStatusChange k None insert_error newStatus w =
           k (w\<lparr>tbl_leads := map (\<lambda>l. if lead_id l \<in> {lead_id a, lead_id b, lead_id c}
                                        then l\<lparr>status := newStatus\<rparr> else l) (tbl_leads w),
                requests := requests w @
                  [UpdateStatusIn [lead_id a, lead_id b, lead_id c] newStatus,
                   InsertActivity \<lparr>act_lead_id = lead_id a, act_type = ''status_change'',
                     description = ''Status changed to '' @ newStatus @ '' (bulk update)''\<rparr>,
                   InsertActivity \<lparr>act_lead_id = lead_id b, act_type = ''status_change'',
                     description = ''Status changed to '' @ newStatus @ '' (bulk update)''\<rparr>,
                   InsertActivity \<lparr>act_lead_id = lead_id c, act_type = ''status_change'',
                     description = ''Status changed to '' @ newStatus @ '' (bulk update)''\<rparr>],
                tbl_activities := tbl_activities w @
                  [\<lparr>act_lead_id = lead_id a, act_type = ''status_change'',
                     description = ''Status changed to '' @ newStatus @ '' (bulk update)''\<rparr>,
                   \<lparr>act_lead_id = lead_id c, act_type = ''status_change'',
                     description = ''Status changed to '' @ newStatus @ '' (bulk update)''\<rparr>],
                toasts := toasts w @ [ToastSuccess ''Status updated for selected leads'']\<rparr>)
       \<and> list_all (\<lambda>l. lead_id l \<notin> {lead_id a, lead_id b, lead_id c} \<or> status l = newStatus)
            (map (\<lambda>l. if lead_id l \<in> {lead_id a, lead_id b, lead_id c}
                        then l\<lparr>status := newStatus\<rparr> else l) (tbl_leads w))
       \<and> (error (srv 0 (batchSize - 1)) = None \<longrightarrow>
            toasts (BulkActions_handleStatusChange (onActionComplete u hier srv) None
                      insert_error newStatus w)
              = toasts w @ [ToastSuccess ''Status updated for selected leads'']
            \<and> length (tbl_activities (BulkActions_handleStatusChange (onActionComplete u hier srv)
                      None insert_error newStatus w)) = length (tbl_activities w) + 2
            \<and> tbl_leads (BulkActions_handleStatusChange (onActionComplete u hier srv) None
                      insert_error newStatus w)
              = map (\<lambda>l. if lead_id l \<in> {lead_id a, lead_id b, lead_id c}
                          then l\<lparr>status := newStatus\<rparr> else l) (tbl_leads w))"
proof -
  have i1: "insert_error (Suc 0) = Some e" using assms(3) by simp
  have i2: "insert_error (Suc (Suc 0)) = None" using assms(4) by (simp add: numeral_2_eq_2)
  have eq: "\<And>k. BulkActions_handleStatusChange k None insert_error newStatus w =
           k (w\<lparr>tbl_leads := map (\<lambda>l. if lead_id l \<in> {lead_id a, lead_id b, lead_id c}
                                        then l\<lparr>status := newStatus\<rparr> else l) (tbl_leads w),
                requests := requests w @
                  [UpdateStatusIn [lead_id a, lead_id b, lead_id c] newStatus,
                   InsertActivity \<lparr>act_lead_id = lead_id a, act_type = ''status_change'',
                     description = ''Status changed to '' @ newStatus @ '' (bulk update)''\<rparr>,
                   InsertActivity \<lparr>act_lead_id = lead_id b, act_type = ''status_change'',
                     description = ''Status changed to '' @ newStatus @ '' (bulk update)''\<rparr>,
                   InsertActivity \<lparr>act_lead_id = lead_id c, act_type = ''status_change'',
                     description = ''Status changed to '' @ newStatus @ '' (bulk update)''\<rparr>],
                tbl_activities := tbl_activities w @
                  [\<lparr>act_lead_id = lead_id a, act_type = ''status_change'',
                     description = ''Status changed to '' @ newStatus @ '' (bulk update)''\<rparr>,
                   \<lparr>act_lead_id = lead_id c, act_type = ''status_change'',
                     description = ''Status changed to '' @ newStatus @ '' (bulk update)''\<rparr>],
                toasts := toasts w @ [ToastSuccess ''Status updated for selected leads'']\<rparr>)"
    using assms(1,2) i1 i2
    by (simp add: BulkActions_handleStatusChange_def Let_def insertActivity_def)
  have st: "list_all (\<lambda>l. lead_id l \<notin> {lead_id a, lead_id b, lead_id c} \<or> status l = newStatus)
            (map (\<lambda>l. if lead_id l \<in> {lead_id a, lead_id b, lead_id c}
                        then l\<lparr>status := newStatus\<rparr> else l) (tbl_leads w))"
    by (auto simp add: list_all_iff)
  have par: "error (srv 0 (batchSize - 1)) = None \<longrightarrow>
            toasts (BulkActions_handleStatusChange (onActionComplete u hier srv) None
                      insert_error newStatus w)
              = toasts w @ [ToastSuccess ''Status updated for selected leads'']
            \<and> length (tbl_activities (BulkActions_handleStatusChange (onActionComplete u hier srv)
                      None insert_error newStatus w)) = length (tbl_activities w) + 2
            \<and> tbl_leads (BulkActions_handleStatusChange (onActionComplete u hier srv) None
                      insert_error newStatus w)
              = map (\<lambda>l. if lead_id l \<in> {lead_id a, lead_id b, lead_id c}
                          then l\<lparr>status := newStatus\<rparr> else l) (tbl_leads w)"
    unfolding eq by (simp add: onActionComplete_def clearSelections_def fetchLeads_frame)
  from eq[of k] st par show ?thesis by blast
qed


theorem C8_bulk_status_partial_audit_failure_witness:
  "selectedLeads (ex_world (ex_db 4) (ex_db 4) [ex_lead 0 None, ex_lead 1 None, ex_lead 2 None])
     = [ex_lead 0 None, ex_lead 1 None, ex_lead 2 None]
   \<and> fail_only_at 1 0 = None \<and> fail_only_at 1 1 = Some ''insert failed''
   \<and> fail_only_at 1 2 = None
   \<and> error (static_store (ex_db 4) 0 (batchSize - 1)) = None
   \<and> toasts (BulkActions_handleStatusChange
        (onActionComplete (Some (ex_viewer ''u0'' ''admin'')) [] (static_store (ex_db 4)))
        None (fail_only_at 1) ''won''
        (ex_world (ex_db 4) (ex_db 4) [ex_lead 0 None, ex_lead 1 None, ex_lead 2 None]))
      = toasts (ex_world (ex_db 4) (ex_db 4) [ex_lead 0 None, ex_lead 1 None, ex_lead 2 None])
        @ [ToastSuccess ''Status updated for selected leads'']
   \<and> length (tbl_activities (BulkActions_handleStatusChange
        (onActionComplete (Some (ex_viewer ''u0'' ''admin'')) [] (static_store (ex_db 4)))
        None (fail_only_at 1) ''won''
        (ex_world (ex_db 4) (ex_db 4) [ex_lead 0 None, ex_lead 1 None, ex_lead 2 None])))
      = length (tbl_activities
          (ex_world (ex_db 4) (ex_db 4) [ex_lead 0 None, ex_lead 1 None, ex_lead 2 None])) + 2"
proof -
  let ?w = "ex_world (ex_db 4) (ex_db 4) [ex_lead 0 None, ex_lead 1 None, ex_lead 2 None]"
  have h1: "selectedLeads ?w = [ex_lead 0 None, ex_lead 1 None, ex_lead 2 None]"
    by (simp add: ex_world_def)
  have h2: "fail_only_at 1 0 = None" by (simp add: fail_only_at_def)
  have h3: "fail_only_at 1 1 = Some ''insert failed''" by (simp add: fail_only_at_def)
  have h4: "fail_only_at 1 2 = None" by (simp add: fail_only_at_def)
  have h5: "error (static_store (ex_db 4) 0 (batchSize - 1)) = None"
    by (simp add: static_store_def)
  note t = C8_bulk_status_partial_audit_failure[where w = ?w and insert_error = "fail_only_at 1"
             and srv = "static_store (ex_db 4)" and u = "Some (ex_viewer ''u0'' ''admin'')"
             and hier = "[]" and newStatus = "''won''", OF h1 h2 h3 h4]
  from t h5 have c: "toasts (BulkActions_handleStatusChange
        (onActionComplete (Some (ex_viewer ''u0'' ''admin'')) [] (static_store (ex_db 4)))
        None (fail_only_at 1) ''won'' ?w)
      = toasts ?w @ [ToastSuccess ''Status updated for selected leads'']
   \<and> length (tbl_activities (BulkActions_handleStatusChange
        (onActionComplete (Some (ex_viewer ''u0'' ''admin'')) [] (static_store (ex_db 4)))
        None (fail_only_at 1) ''won'' ?w))
      = length (tbl_activities ?w) + 2"
    by blast
  from h1 h2 h3 h4 h5 c show ?thesis by blast
qed

text \<open>
  C1, as the code has it. The gate of the bulk deletion is the state cell
  \<^verbatim>\<open>isAdmin\<close>, which \<^verbatim>\<open>checkUserRole\<close> sets for the roles admin and desk. For a viewer
  with neither role (or no viewer) the handler only adds the error notification: store,
  displayed collection and request trace stay as they are. For a viewer with role admin
  or desk who confirms, one delete keyed by exactly the selected identities is sent;
  when the store accepts it the rows leave the table, the success notification is added
  and the parent's callback runs; when the store refuses it the table stays and the
  failure is reported. Without confirmation nothing happens.
\<close>

theorem C1_delete_gate:
  "(role u \<noteq> ''admin'' \<and> role u \<noteq> ''desk'' \<longrightarrow>
      handleDeleteLeads k (checkUserRole (Some u)) confirmed delete_error w
        = w\<lparr>toasts := toasts w @ [ToastError ''Only admins can delete leads'']\<rparr>
      \<and> tbl_leads (handleDeleteLeads k (checkUserRole (Some u)) confirmed delete_error w)
          = tbl_leads w
      \<and> leads (handleDeleteLeads k (checkUserRole (Some u)) confirmed delete_error w) = leads w
      \<and> requests (handleDeleteLeads k (checkUserRole (Some u)) confirmed delete_error w)
          = requests w)
   \<and> handleDeleteLeads k (checkUserRole None) confirmed delete_error w
        = w\<lparr>toasts := toasts w @ [ToastError ''Only admins can delete leads'']\<rparr>
   \<and> (role u = ''admin'' \<or> role u = ''desk'' \<longrightarrow>
      handleDeleteLeads k (checkUserRole (Some u)) True None w
        = k (w\<lparr>requests := requests w @ [DeleteIn (map lead_id (selectedLeads w))],
               tbl_leads := filter (\<lambda>l. lead_id l \<notin> lead_id ` set (selectedLeads w))
                              (tbl_leads w),
               toasts := toasts w @ [ToastSuccess ''Leads deleted successfully'']\<rparr>)
      \<and> handleDeleteLeads k (checkUserRole (Some u)) True (Some e) w
        = w\<lparr>requests := requests w @ [DeleteIn (map lead_id (selectedLeads w))],
             console := console w @ [ConsoleError ''Error deleting leads:''],
             toasts := toasts w @ [ToastError ''Failed to delete leads'']\<rparr>
      \<and> handleDeleteLeads k (checkUserRole (Some u)) False delete_error w = w)"
  by (simp add: handleDeleteLeads_def checkUserRole_def Let_def)

theorem C1_delete_gate_witness:
  "role (ex_viewer ''u1'' ''agent'') \<noteq> ''admin'' \<and> role (ex_viewer ''u1'' ''agent'') \<noteq> ''desk''
   \<and> tbl_leads (handleDeleteLeads clearSelections (checkUserRole (Some (ex_viewer ''u1'' ''agent'')))
        True None (ex_world (ex_db 2) (ex_db 2) (ex_db 1)))
      = tbl_leads (ex_world (ex_db 2) (ex_db 2) (ex_db 1))
   \<and> requests (handleDeleteLeads clearSelections (checkUserRole (Some (ex_viewer ''u1'' ''agent'')))
        True None (ex_world (ex_db 2) (ex_db 2) (ex_db 1)))
      = requests (ex_world (ex_db 2) (ex_db 2) (ex_db 1))
   \<and> (role (ex_viewer ''u0'' ''admin'') = ''admin'' \<and>
      handleDeleteLeads clearSelections (checkUserRole (Some (ex_viewer ''u0'' ''admin'')))
        True None (ex_world (ex_db 2) (ex_db 2) (ex_db 1))
      = clearSelections ((ex_world (ex_db 2) (ex_db 2) (ex_db 1))
          \<lparr>requests := requests (ex_world (ex_db 2) (ex_db 2) (ex_db 1))
              @ [DeleteIn (map lead_id (selectedLeads (ex_world (ex_db 2) (ex_db 2) (ex_db 1))))],
           tbl_leads := filter (\<lambda>l. lead_id l \<notin> lead_id `
                                  set (selectedLeads (ex_world (ex_db 2) (ex_db 2) (ex_db 1))))
                          (tbl_leads (ex_world (ex_db 2) (ex_db 2) (ex_db 1))),
           toasts := toasts (ex_world (ex_db 2) (ex_db 2) (ex_db 1))
              @ [ToastSuccess ''Leads deleted successfully'']\<rparr>))"
proof -
  let ?w = "ex_world (ex_db 2) (ex_db 2) (ex_db 1)"
  have h1: "role (ex_viewer ''u1'' ''agent'') \<noteq> ''admin'' \<and> role (ex_viewer ''u1'' ''agent'') \<noteq> ''desk''"
    by (simp add: ex_viewer_def)
  have h2: "role (ex_viewer ''u0'' ''admin'') = ''admin''"
    by (simp add: ex_viewer_def)
  note t1 = C1_delete_gate[where u = "ex_viewer ''u1'' ''agent''" and k = clearSelections
              and confirmed = True and delete_error = None and w = ?w]
  note t2 = C1_delete_gate[where u = "ex_viewer ''u0'' ''admin''" and k = clearSelections
              and confirmed = True and delete_error = None and w = ?w]
  from t1 h1 have a: "tbl_leads (handleDeleteLeads clearSelections
        (checkUserRole (Some (ex_viewer ''u1'' ''agent''))) True None ?w) = tbl_leads ?w
     \<and> requests (handleDeleteLeads clearSelections
        (checkUserRole (Some (ex_viewer ''u1'' ''agent''))) True None ?w) = requests ?w"
    by blast
  from t2 h2 have b: "handleDeleteLeads clearSelections
        (checkUserRole (Some (ex_viewer ''u0'' ''admin''))) True None ?w
      = clearSelections (?w
          \<lparr>requests := requests ?w @ [DeleteIn (map lead_id (selectedLeads ?w))],
           tbl_leads := filter (\<lambda>l. lead_id l \<notin> lead_id ` set (selectedLeads ?w)) (tbl_leads ?w),
           toasts := toasts ?w @ [ToastSuccess ''Leads deleted successfully'']\<rparr>)"
    by blast
  from h1 h2 a b show ?thesis by blast
qed

theorem C1_desk_deletes_counterexample:
  "role (ex_viewer ''d1'' ''desk'') \<noteq> ''admin''
   \<and> tbl_leads (ex_world [ex_lead 2 None, ex_lead 3 None] [ex_lead 2 None, ex_lead 3 None]
        [ex_lead 2 None]) = [ex_lead 2 None, ex_lead 3 None]
   \<and> tbl_leads (handleDeleteLeads
        (onActionComplete (Some (ex_viewer ''d1'' ''desk'')) [] (static_store [ex_lead 3 None]))
        (checkUserRole (Some (ex_viewer ''d1'' ''desk''))) True None
        (ex_world [ex_lead 2 None, ex_lead 3 None] [ex_lead 2 None, ex_lead 3 None]
           [ex_lead 2 None])) = [ex_lead 3 None]
   \<and> toasts (handleDeleteLeads
        (onActionComplete (Some (ex_viewer ''d1'' ''desk'')) [] (static_store [ex_lead 3 None]))
        (checkUserRole (Some (ex_viewer ''d1'' ''desk''))) True None
        (ex_world [ex_lead 2 None, ex_lead 3 None] [ex_lead 2 None, ex_lead 3 None]
           [ex_lead 2 None])) = [ToastSuccess ''Leads deleted successfully'']"
proof -
  have e: "error (static_store [ex_lead 3 None] 0 (batchSize - 1)) = None"
    by (simp add: static_store_def)
  show ?thesis
    by (simp add: handleDeleteLeads_def checkUserRole_def Let_def onActionComplete_def
          clearSelections_def ex_viewer_def ex_world_def
          fetchLeads_frame[where srv = "static_store [ex_lead 3 None]", OF e],
        simp add: ex_lead_def)
qed

section \<open>A whole run against a store that does not change\<close>

lemma leads_mergePage_static:
  assumes d: "distinct (map lead_id db)"
      and l: "leads w = filter (visible cu subs) (take off db)"
  shows "leads (mergePage cu subs (take n (drop off db)) w)
           = filter (visible cu subs) (take (off + n) db)"
proof -
  let ?A = "take off db" and ?B = "take n (drop off db)"
  have split: "take (off + n) db = ?A @ ?B" by (rule take_add)
  have "distinct (map lead_id (?A @ drop off db))" using d by simp
  then have disj: "lead_id ` set ?A \<inter> lead_id ` set (drop off db) = {}"
    by (simp only: map_append distinct_append set_map) 
  have sub: "set ?B \<subseteq> set (drop off db)" by (rule set_take_subset)
  have fresh: "\<forall>x\<in>set ?B. lead_id x \<notin> lead_id ` set ?A"
    using disj sub by blast
  have new: "filter (\<lambda>x. lead_id x \<notin> lead_id ` set (filter (visible cu subs) ?A))
               (filter (visible cu subs) ?B) = filter (visible cu subs) ?B"
    by (simp only: filter_id_conv) (use fresh in auto)
  have "mergeLeads (filter (visible cu subs) ?A) (filter (visible cu subs) ?B)
          = filter (visible cu subs) ?A @ filter (visible cu subs) ?B"
    using new by (simp add: mergeLeads_def Let_def)
  then show ?thesis
    unfolding split by (simp add: mergePage_def Let_def filterBatch_visible l)
qed

lemma loop_static_leads:
  assumes "off = batchSize * Suc it" "it < maxIterations"
      and "distinct (map lead_id db)"
      and "leads w = filter (visible cu subs) (take off db)"
  shows "leads (snd (snd (loadRemaining_loop cu subs (static_store db) True it off w))) =
     filter (visible cu subs) (take (batchSize *
        (Suc it + min (maxIterations - it) (max 1 (length db div batchSize - it)))) db)"
  using assms
proof (induction "maxIterations - it" arbitrary: it off w)
  case 0
  then show ?case by simp
next
  case (Suc n)
  let ?q = "length db div batchSize"
  let ?w1 = "w\<lparr>requests := requests w @ [SelectRange off (off + batchSize - 1)]\<rparr>"
  let ?w2 = "mergePage cu subs (take batchSize (drop off db)) ?w1"
  have l1: "leads ?w1 = filter (visible cu subs) (take off db)" using Suc.prems(4) by simp
  have l2: "leads ?w2 = filter (visible cu subs) (take (off + batchSize) db)"
    using Suc.prems(3) l1 by (rule leads_mergePage_static)
  have off': "off + batchSize = batchSize * Suc (Suc it)" using Suc.prems(1) by simp
  have tgt: "batchSize * (Suc it + 1) = off + batchSize" using Suc.prems(1) by simp
  consider (full) "off + batchSize \<le> length db" 
    | (short) "off < length db" "length db < off + batchSize"
    | (empty) "length db \<le> off" by linarith
  then show ?case
  proof cases
    case full
    then have q: "it + 2 \<le> ?q"
      using Suc.prems(1) by (simp add: batchSize_def less_eq_div_iff_mult_less_eq)
    show ?thesis
    proof (cases "Suc it < maxIterations")
      case True
      have n: "n = maxIterations - Suc it" using Suc.hyps(2) by simp
      have cnt: "Suc it + min (maxIterations - it) (max 1 (?q - it)) =
                 Suc (Suc it) + min (maxIterations - Suc it) (max 1 (?q - Suc it))"
        using q True by simp
      show ?thesis
        unfolding loop_static_full[OF Suc.prems(2) full] cnt
        using Suc.hyps(1)[OF n off' True Suc.prems(3) l2] by simp
    next
      case False
      then have e: "min (maxIterations - it) (max 1 (?q - it)) = 1" using Suc.prems(2) by simp
      show ?thesis
        unfolding loop_static_full[OF Suc.prems(2) full] loop_done[OF False] e tgt
        using l2 by simp
    qed
  next
    case short
    then have "?q < Suc (Suc it)"
      using Suc.prems(1) by (simp add: div_less_iff_less_mult mult.commute)
    then have q: "?q \<le> Suc it" by simp
    then have c: "min (maxIterations - it) (max 1 (?q - it)) = 1" using Suc.prems(2) by simp
    show ?thesis unfolding loop_static_short[OF Suc.prems(2) short] c tgt using l2 by simp
  next
    case empty
    then have "length db < Suc (Suc it) * batchSize"
      using Suc.prems(1) by (simp add: batchSize_def)
    then have "?q < Suc (Suc it)"
      by (simp only: div_less_iff_less_mult[OF batchSize_pos])
    then have q: "?q \<le> Suc it" by simp
    then have c: "min (maxIterations - it) (max 1 (?q - it)) = 1" using Suc.prems(2) by simp
    have "take (batchSize * (Suc it + 1)) db = take off db"
      using empty Suc.prems(1) by simp
    then show ?thesis unfolding loop_static_empty[OF Suc.prems(2) empty] c using l1 by simp
  qed
qed

lemma static_first_page:
  "data (static_store db 0 (batchSize - Suc 0)) = Some (take batchSize db)"
  "error (static_store db 0 (batchSize - Suc 0)) = None"
  by (simp_all add: static_store_def)

lemma fetchLeads_static_requests:
  "requests (fetchLeads (Some cu) hier (static_store db) w) =
     requests w @ map (\<lambda>k. SelectRange (batchSize * k) (batchSize * k + batchSize - 1))
        [0 ..< Suc (min maxIterations (max 1 (length db div batchSize)))]"
proof -
  let ?subs = "subordinateIdsFor cu hier"
  let ?w2 = "w\<lparr>loading := True, leads := [],
               requests := requests w @ [SelectRange 0 (batchSize - 1)],
               leads := filterFirstBatch cu ?subs (take batchSize db)\<rparr>"
  let ?n = "min maxIterations (max 1 (length db div batchSize))"
  obtain i p v where r: "loadRemaining_loop cu ?subs (static_store db) True 0 batchSize ?w2 = (i, p, v)"
    by (cases "loadRemaining_loop cu ?subs (static_store db) True 0 batchSize ?w2") auto
  have m: "(0::nat) < maxIterations" by (simp add: maxIterations_def)
  have "requests v = requests ?w2 @ map (\<lambda>k. SelectRange (batchSize * k) (batchSize * k + batchSize - 1))
        [Suc 0 ..< Suc 0 + min (maxIterations - 0) (max 1 (length db div batchSize - 0))]"
    using loop_static_requests[of batchSize 0 cu ?subs db ?w2] r m by simp
  then have v: "requests v = requests w @ SelectRange 0 (batchSize - 1) #
        map (\<lambda>k. SelectRange (batchSize * k) (batchSize * k + batchSize - 1)) [Suc 0 ..< Suc ?n]"
    by simp
  have "[0 ..< Suc ?n] = 0 # [Suc 0 ..< Suc ?n]" by (rule upt_conv_Cons) simp
  then have "map (\<lambda>k. SelectRange (batchSize * k) (batchSize * k + batchSize - 1)) [0 ..< Suc ?n]
       = SelectRange 0 (batchSize - 1) #
         map (\<lambda>k. SelectRange (batchSize * k) (batchSize * k + batchSize - 1)) [Suc 0 ..< Suc ?n]"
    by simp
  with v have "requests v = requests w @
      map (\<lambda>k. SelectRange (batchSize * k) (batchSize * k + batchSize - 1)) [0 ..< Suc ?n]"
    by simp
  then show ?thesis using r
    by (simp add: fetchLeads_def Let_def static_first_page loadRemaining_def
          loadRemaining_end_def)
qed

lemma fetchLeads_static_leads:
  assumes "distinct (map lead_id db)"
  shows "leads (fetchLeads (Some cu) hier (static_store db) w) =
     filter (visible cu (subordinateIdsFor cu hier))
       (take (batchSize * Suc (min maxIterations (max 1 (length db div batchSize)))) db)"
proof -
  let ?subs = "subordinateIdsFor cu hier"
  let ?w2 = "w\<lparr>loading := True, leads := [],
               requests := requests w @ [SelectRange 0 (batchSize - 1)],
               leads := filterFirstBatch cu ?subs (take batchSize db)\<rparr>"
  obtain i p v where r: "loadRemaining_loop cu ?subs (static_store db) True 0 batchSize ?w2 = (i, p, v)"
    by (cases "loadRemaining_loop cu ?subs (static_store db) True 0 batchSize ?w2") auto
  have m: "(0::nat) < maxIterations" by (simp add: maxIterations_def)
  have l: "leads ?w2 = filter (visible cu ?subs) (take batchSize db)"
    by (simp add: filterFirstBatch_visible)
  have "leads v = filter (visible cu ?subs) (take (batchSize *
        (Suc 0 + min (maxIterations - 0) (max 1 (length db div batchSize - 0)))) db)"
    using loop_static_leads[of batchSize 0 db ?w2 cu ?subs] r m assms l by simp
  then show ?thesis using r
    by (simp add: fetchLeads_def Let_def static_first_page loadRemaining_def
          loadRemaining_end_def)
qed

section \<open>The number of page requests\<close>

lemma ceil_count:
  assumes "(1000::nat) < N" "N < 101000" "N mod 1000 \<noteq> 0"
  shows "Suc (min 100 (max 1 (N div 1000))) = (N + 999) div 1000"
proof -
  define q r where "q = N div 1000" and "r = N mod 1000"
  have N: "N = 1000 * q + r" by (simp add: q_def r_def)
  have r: "0 < r" "r < 1000" using assms(3) by (simp_all add: r_def)
  have q1: "1 \<le> q" using assms(1) N r by linarith
  have q2: "q \<le> 100" using assms(2) N r by linarith
  have "(N + 999) div 1000 = q + 1"
  proof (rule div_nat_eqI)
    show "1000 * (q + 1) \<le> N + 999" unfolding N using r by simp
    show "N + 999 < 1000 * Suc (q + 1)" unfolding N using r by simp
  qed
  then show ?thesis using q1 q2 by (simp add: q_def[symmetric])
qed

lemma multiple_count:
  assumes "(0::nat) < N" "N \<le> 100000" "N mod 1000 = 0"
  shows "Suc (min 100 (max 1 (N div 1000))) = N div 1000 + 1"
proof -
  define q where "q = N div 1000"
  have N: "N = 1000 * q" using assms(3) by (auto simp add: q_def)
  have q1: "1 \<le> q" using assms(1) N by linarith
  have q2: "q \<le> 100" using assms(2) N by linarith
  show ?thesis using q1 q2 by (simp add: q_def[symmetric])
qed

lemma fetchLeads_static_count:
  "length (requests (fetchLeads (Some cu) hier (static_store db) w)) =
     length (requests w) + Suc (min maxIterations (max 1 (length db div batchSize)))"
  by (simp add: fetchLeads_static_requests)

lemma length_ex_db [simp]: "length (ex_db n) = n"
  by (simp add: ex_db_def)

lemma distinct_ex_db: "distinct (map lead_id (ex_db n))"
  by (simp add: ex_db_def ex_lead_def comp_def distinct_map inj_on_def)

lemma not_converted_ex_db: "list_all (\<lambda>l. \<not> is_converted l) (ex_db n)"
  by (simp add: ex_db_def ex_lead_def list_all_iff)

text \<open>
  C2, as the code has it. Against a store of \<open>N\<close> matching leads that does not change,
  one run sends the first page and then at most 100 background pages, so never more
  than 101 requests, for consecutive pages from offset 0. The background loop ends on
  the first page that is short or empty: when \<open>N\<close> is above the page size, below
  101 pages and no multiple of the page size, that is after exactly \<open>ceil(N/P)\<close>
  requests; when \<open>N\<close> is a positive multiple of the page size of at most 100 pages,
  one more request than \<open>N/P\<close> is sent, the last answering with an empty page. With 2500
  leads the run sends exactly 3 requests, and for a viewer whose filter accepts every
  lead the displayed collection is then the 2500 leads, each once.
\<close>

theorem C2_page_requests:
  "length (requests (fetchLeads (Some cu) hier (static_store db) w))
      \<le> length (requests w) + 101
   \<and> requests (fetchLeads (Some cu) hier (static_store db) w)
      = requests w @ map (\<lambda>k. SelectRange (batchSize * k) (batchSize * k + batchSize - 1))
          [0 ..< length (requests (fetchLeads (Some cu) hier (static_store db) w))
                   - length (requests w)]
   \<and> (batchSize < length db \<and> length db < batchSize * 101 \<and> length db mod batchSize \<noteq> 0
        \<longrightarrow> length (requests (fetchLeads (Some cu) hier (static_store db) w))
              = length (requests w) + (length db + batchSize - 1) div batchSize)
   \<and> (0 < length db \<and> length db \<le> batchSize * 100 \<and> length db mod batchSize = 0
        \<longrightarrow> length (requests (fetchLeads (Some cu) hier (static_store db) w))
              = length (requests w) + length db div batchSize + 1)
   \<and> (length db = 2500
        \<longrightarrow> length (requests (fetchLeads (Some cu) hier (static_store db) w))
              = length (requests w) + 3)
   \<and> (length db = 2500 \<and> distinct (map lead_id db)
        \<and> list_all (visible cu (subordinateIdsFor cu hier)) db
        \<longrightarrow> leads (fetchLeads (Some cu) hier (static_store db) w) = db
            \<and> length (leads (fetchLeads (Some cu) hier (static_store db) w)) = 2500
            \<and> distinct (map lead_id (leads (fetchLeads (Some cu) hier (static_store db) w))))"
proof -
  let ?r = "fetchLeads (Some cu) hier (static_store db) w"
  let ?n = "Suc (min maxIterations (max 1 (length db div batchSize)))"
  have cnt: "length (requests ?r) = length (requests w) + ?n"
    by (rule fetchLeads_static_count)
  have a: "length (requests ?r) \<le> length (requests w) + 101"
    unfolding cnt by (simp add: maxIterations_def)
  have b: "requests ?r = requests w @
             map (\<lambda>k. SelectRange (batchSize * k) (batchSize * k + batchSize - 1))
               [0 ..< length (requests ?r) - length (requests w)]"
    unfolding cnt by (simp add: fetchLeads_static_requests)
  have c: "batchSize < length db \<and> length db < batchSize * 101 \<and> length db mod batchSize \<noteq> 0
        \<longrightarrow> length (requests ?r) = length (requests w) + (length db + batchSize - 1) div batchSize"
  proof (intro impI, elim conjE)
    assume h: "batchSize < length db" "length db < batchSize * 101"
              "length db mod batchSize \<noteq> 0"
    have "Suc (min 100 (max 1 (length db div 1000))) = (length db + 999) div 1000"
      by (rule ceil_count) (use h in \<open>simp_all add: batchSize_def\<close>)
    then show "length (requests ?r)
                 = length (requests w) + (length db + batchSize - 1) div batchSize"
      unfolding cnt by (simp add: batchSize_def maxIterations_def)
  qed
  have d: "0 < length db \<and> length db \<le> batchSize * 100 \<and> length db mod batchSize = 0
        \<longrightarrow> length (requests ?r) = length (requests w) + length db div batchSize + 1"
  proof (intro impI, elim conjE)
    assume h: "0 < length db" "length db \<le> batchSize * 100" "length db mod batchSize = 0"
    have "Suc (min 100 (max 1 (length db div 1000))) = length db div 1000 + 1"
      by (rule multiple_count) (use h in \<open>simp_all add: batchSize_def\<close>)
    then show "length (requests ?r) = length (requests w) + length db div batchSize + 1"
      unfolding cnt by (simp add: batchSize_def maxIterations_def)
  qed
  have e: "length db = 2500 \<longrightarrow> length (requests ?r) = length (requests w) + 3"
    unfolding cnt by (simp add: batchSize_def maxIterations_def)
  have f: "length db = 2500 \<and> distinct (map lead_id db)
        \<and> list_all (visible cu (subordinateIdsFor cu hier)) db
        \<longrightarrow> leads ?r = db \<and> length (leads ?r) = 2500 \<and> distinct (map lead_id (leads ?r))"
  proof (intro impI, elim conjE)
    assume n: "length db = 2500" and dist: "distinct (map lead_id db)"
       and vis: "list_all (visible cu (subordinateIdsFor cu hier)) db"
    have "batchSize * ?n = 3000" using n by (simp add: batchSize_def maxIterations_def)
    then have "take (batchSize * ?n) db = db" using n by simp
    then have "leads ?r = filter (visible cu (subordinateIdsFor cu hier)) db"
      using fetchLeads_static_leads[OF dist, of cu hier w] by simp
    also have "\<dots> = db" using vis by (simp add: list_all_iff)
    finally have l: "leads ?r = db" .
    show "leads ?r = db \<and> length (leads ?r) = 2500 \<and> distinct (map lead_id (leads ?r))"
      unfolding l using n dist by simp
  qed
  show ?thesis by (intro conjI) (rule a b c d e f)+
qed


theorem C2_page_requests_witness:
  "batchSize < length (ex_db 2500) \<and> length (ex_db 2500) < batchSize * 101
   \<and> length (ex_db 2500) mod batchSize \<noteq> 0
   \<and> length (ex_db 2500) = 2500 \<and> distinct (map lead_id (ex_db 2500))
   \<and> list_all (visible (ex_viewer ''u0'' ''admin'')
                 (subordinateIdsFor (ex_viewer ''u0'' ''admin'') [])) (ex_db 2500)
   \<and> 0 < length (ex_db 2000) \<and> length (ex_db 2000) \<le> batchSize * 100
   \<and> length (ex_db 2000) mod batchSize = 0
   \<and> length (requests (fetchLeads (Some (ex_viewer ''u0'' ''admin'')) []
        (static_store (ex_db 2500)) (ex_world [] [] [])))
      = length (requests (ex_world [] [] []))
        + (length (ex_db 2500) + batchSize - 1) div batchSize
   \<and> length (requests (fetchLeads (Some (ex_viewer ''u0'' ''admin'')) []
        (static_store (ex_db 2500)) (ex_world [] [] [])))
      = length (requests (ex_world [] [] [])) + 3
   \<and> leads (fetchLeads (Some (ex_viewer ''u0'' ''admin'')) []
        (static_store (ex_db 2500)) (ex_world [] [] [])) = ex_db 2500
   \<and> length (requests (fetchLeads (Some (ex_viewer ''u0'' ''admin'')) []
        (static_store (ex_db 2000)) (ex_world [] [] [])))
      = length (requests (ex_world [] [] [])) + length (ex_db 2000) div batchSize + 1"
proof -
  let ?u = "ex_viewer ''u0'' ''admin''" and ?w = "ex_world [] [] []"
  have h1: "batchSize < length (ex_db 2500) \<and> length (ex_db 2500) < batchSize * 101
            \<and> length (ex_db 2500) mod batchSize \<noteq> 0"
    by (simp add: batchSize_def)
  have h2: "length (ex_db 2500) = 2500" by simp
  have h3: "distinct (map lead_id (ex_db 2500))" by (rule distinct_ex_db)
  have h4: "list_all (visible ?u (subordinateIdsFor ?u [])) (ex_db 2500)"
    by (simp add: list_all_iff visible_admin ex_viewer_def)
  have h5: "0 < length (ex_db 2000) \<and> length (ex_db 2000) \<le> batchSize * 100
            \<and> length (ex_db 2000) mod batchSize = 0"
    by (simp add: batchSize_def)
  note t1 = C2_page_requests[where cu = ?u and hier = "[]" and db = "ex_db 2500" and w = ?w]
  note t2 = C2_page_requests[where cu = ?u and hier = "[]" and db = "ex_db 2000" and w = ?w]
  from t1 h1 have c1: "length (requests (fetchLeads (Some ?u) [] (static_store (ex_db 2500)) ?w))
      = length (requests ?w) + (length (ex_db 2500) + batchSize - 1) div batchSize"
    by blast
  from t1 h2 have c2: "length (requests (fetchLeads (Some ?u) [] (static_store (ex_db 2500)) ?w))
      = length (requests ?w) + 3"
    by blast
  from t1 h2 h3 h4 have c3: "leads (fetchLeads (Some ?u) [] (static_store (ex_db 2500)) ?w)
      = ex_db 2500"
    by blast
  from t2 h5 have c4: "length (requests (fetchLeads (Some ?u) [] (static_store (ex_db 2000)) ?w))
      = length (requests ?w) + length (ex_db 2000) div batchSize + 1"
    by blast
  from h1 h2 h3 h4 h5 c1 c2 c3 c4 show ?thesis by (intro conjI) blast+
qed

theorem C2_request_count_counterexample:
  "length (requests (fetchLeads (Some (ex_viewer ''u0'' ''admin'')) []
        (static_store (ex_db 2000)) (ex_world [] [] []))) = 3
   \<and> (length (ex_db 2000) + batchSize - 1) div batchSize = 2
   \<and> length (requests (fetchLeads (Some (ex_viewer ''u0'' ''admin'')) []
        (static_store (ex_db 0)) (ex_world [] [] []))) = 2
   \<and> (length (ex_db 0) + batchSize - 1) div batchSize = 0
   \<and> length (requests (fetchLeads (Some (ex_viewer ''u0'' ''admin'')) []
        (static_store (ex_db 101000)) (ex_world [] [] []))) = 101"
  by (simp add: fetchLeads_static_count batchSize_def maxIterations_def ex_world_def)

section \<open>The invariant of the displayed collection\<close>

lemma visible_status [simp]: "visible cu subs (l\<lparr>status := s\<rparr>) = visible cu subs l"
  by (simp add: visible_def filterBatch_def)

lemma displayed_ok_Nil [simp]: "displayed_ok cu subs []"
  by (simp add: displayed_ok_def)

lemma displayed_ok_first:
  assumes "page_ok rows"
  shows "displayed_ok cu subs (filterFirstBatch cu subs rows)"
  using assms
  by (auto simp add: page_ok_def displayed_ok_def filterFirstBatch_visible list_all_iff
        distinct_map_filter)

lemma displayed_ok_merge:
  assumes d: "displayed_ok cu subs ds" and p: "page_ok rows"
  shows "displayed_ok cu subs (mergeLeads ds (filterBatch cu subs rows))"
proof -
  let ?new = "filter (\<lambda>l. lead_id l \<notin> lead_id ` set ds) (filter (visible cu subs) rows)"
  have m: "mergeLeads ds (filterBatch cu subs rows) = ds @ ?new"
    by (simp add: mergeLeads_def Let_def filterBatch_visible)
  have dn: "distinct (map lead_id ?new)"
    using p by (simp add: page_ok_def distinct_map_filter)
  have disj: "lead_id ` set ds \<inter> lead_id ` set ?new = {}"
  proof (rule equals0I)
    fix k assume "k \<in> lead_id ` set ds \<inter> lead_id ` set ?new"
    then have in_ds: "k \<in> lead_id ` set ds" and in_new: "k \<in> lead_id ` set ?new"
      by simp_all
    from in_new obtain x where "x \<in> set ?new" and k: "k = lead_id x" by (rule imageE)
    then have "lead_id x \<notin> lead_id ` set ds" by simp
    with in_ds k show False by simp
  qed
  have dist: "distinct (map lead_id (ds @ ?new))"
    using d dn disj by (simp add: displayed_ok_def)
  have all: "list_all (\<lambda>l. \<not> is_converted l \<and> visible cu subs l) (ds @ ?new)"
    using d p by (auto simp add: displayed_ok_def page_ok_def list_all_iff)
  show ?thesis unfolding m displayed_ok_def using dist all by simp
qed

lemma displayed_ok_mergePage:
  assumes "displayed_ok cu subs (leads w)" and "page_ok rows"
  shows "displayed_ok cu subs (leads (mergePage cu subs rows w))"
  using assms by (simp add: mergePage_def Let_def displayed_ok_merge)

lemma displayed_ok_loop:
  assumes srv: "\<forall>from to rows. data (srv from to) = Some rows \<longrightarrow> page_ok rows"
      and d: "displayed_ok cu subs (leads w)"
  shows "displayed_ok cu subs (leads (snd (snd (loadRemaining_loop cu subs srv h it off w))))"
proof (rule loop_preserves[where P = "\<lambda>x. displayed_ok cu subs (leads x)"])
  show "displayed_ok cu subs (leads w)" by (rule d)
next
  fix v :: world and x assume "displayed_ok cu subs (leads v)"
  then show "displayed_ok cu subs (leads (v\<lparr>requests := x\<rparr>))" by simp
next
  fix v :: world and x assume "displayed_ok cu subs (leads v)"
  then show "displayed_ok cu subs (leads (v\<lparr>console := x\<rparr>))" by simp
next
  fix v :: world and "from" to rows
  assume v: "displayed_ok cu subs (leads v)" and r: "data (srv from to) = Some rows"
  from srv r have "page_ok rows" by blast
  with v show "displayed_ok cu subs (leads (mergePage cu subs rows v))"
    by (rule displayed_ok_mergePage)
qed

lemma displayed_ok_fetchLeads:
  assumes srv: "\<forall>from to rows. data (srv from to) = Some rows \<longrightarrow> page_ok rows"
  shows "displayed_ok cu (subordinateIdsFor cu hier) (leads (fetchLeads (Some cu) hier srv w))"
proof (cases "error (srv 0 (batchSize - 1))")
  case (Some e)
  then show ?thesis by (simp add: fetchLeads_def Let_def)
next
  case None
  let ?subs = "subordinateIdsFor cu hier"
  let ?rows = "case data (srv 0 (batchSize - 1)) of Some rows \<Rightarrow> rows | None \<Rightarrow> []"
  let ?w2 = "w\<lparr>loading := True, leads := [],
               requests := requests w @ [SelectRange 0 (batchSize - 1)],
               leads := filterFirstBatch cu ?subs ?rows\<rparr>"
  have "page_ok ?rows" using srv by (auto simp add: page_ok_def split: option.splits)
  then have "displayed_ok cu ?subs (leads ?w2)" by (simp add: displayed_ok_first)
  then have l: "displayed_ok cu ?subs
                  (leads (snd (snd (loadRemaining_loop cu ?subs srv True 0 batchSize ?w2))))"
    by (rule displayed_ok_loop[OF srv])
  obtain i p v where r: "loadRemaining_loop cu ?subs srv True 0 batchSize ?w2 = (i, p, v)"
    by (cases "loadRemaining_loop cu ?subs srv True 0 batchSize ?w2") auto
  from l r None show ?thesis
    by (simp add: fetchLeads_def Let_def loadRemaining_def loadRemaining_end_def)
qed

lemma map_field_frame:
  "map lead_id (map (\<lambda>l. if lead_id l = k then l\<lparr>status := s\<rparr> else l) ds) = map lead_id ds"
  "map lead_id (map (\<lambda>l. if lead_id l = k then l\<lparr>assigned_to := a\<rparr> else l) ds) = map lead_id ds"
  by (auto simp add: comp_def intro: map_cong)

lemma displayed_ok_status:
  assumes "displayed_ok cu subs (leads w)"
  shows "displayed_ok cu subs (leads (SalesLeads_handleStatusChange ue ie leadId newStatus w))"
proof (cases ue)
  case (Some e)
  then show ?thesis using assms by (simp add: SalesLeads_handleStatusChange_def Let_def)
next
  case None
  have eq: "leads (SalesLeads_handleStatusChange ue ie leadId newStatus w)
          = map (\<lambda>l. if lead_id l = leadId then l\<lparr>status := newStatus\<rparr> else l) (leads w)"
    using None by (simp add: SalesLeads_handleStatusChange_def Let_def insertActivity_frame)
  have ids: "map lead_id (leads (SalesLeads_handleStatusChange ue ie leadId newStatus w))
          = map lead_id (leads w)"
    unfolding eq by (rule map_field_frame)
  have "list_all (\<lambda>l. \<not> is_converted l \<and> visible cu subs l)
          (leads (SalesLeads_handleStatusChange ue ie leadId newStatus w))"
    unfolding eq using assms by (auto simp add: displayed_ok_def list_all_iff)
  then show ?thesis using assms unfolding displayed_ok_def ids by simp
qed

lemma displayed_ok_assign:
  assumes "displayed_ok cu subs (leads w)"
  shows "distinct (map lead_id (leads (SalesLeads_handleAssignAgent ue ie leadId agentId w)))
       \<and> list_all (\<lambda>l. \<not> is_converted l)
           (leads (SalesLeads_handleAssignAgent ue ie leadId agentId w))
       \<and> (list_all (\<lambda>l. lead_id l \<noteq> leadId \<or> visible cu subs (l\<lparr>assigned_to := agentId\<rparr>))
            (leads w)
          \<longrightarrow> displayed_ok cu subs (leads (SalesLeads_handleAssignAgent ue ie leadId agentId w)))"
proof (cases ue)
  case (Some e)
  then show ?thesis using assms
    by (auto simp add: SalesLeads_handleAssignAgent_def Let_def displayed_ok_def list_all_iff)
next
  case None
  have eq: "leads (SalesLeads_handleAssignAgent ue ie leadId agentId w)
          = map (\<lambda>l. if lead_id l = leadId then l\<lparr>assigned_to := agentId\<rparr> else l) (leads w)"
    using None by (simp add: SalesLeads_handleAssignAgent_def Let_def insertActivity_frame)
  have ids: "map lead_id (leads (SalesLeads_handleAssignAgent ue ie leadId agentId w))
          = map lead_id (leads w)"
    unfolding eq by (rule map_field_frame)
  have nc: "list_all (\<lambda>l. \<not> is_converted l)
          (leads (SalesLeads_handleAssignAgent ue ie leadId agentId w))"
    unfolding eq using assms by (auto simp add: displayed_ok_def list_all_iff)
  have vis: "list_all (\<lambda>l. lead_id l \<noteq> leadId \<or> visible cu subs (l\<lparr>assigned_to := agentId\<rparr>))
            (leads w)
          \<longrightarrow> list_all (\<lambda>l. \<not> is_converted l \<and> visible cu subs l)
                (leads (SalesLeads_handleAssignAgent ue ie leadId agentId w))"
    unfolding eq using assms by (auto simp add: displayed_ok_def list_all_iff)
  show ?thesis using assms nc vis unfolding displayed_ok_def ids by simp
qed


lemma page_ok_ex_db: "page_ok (ex_db n)"
  by (simp add: page_ok_def distinct_ex_db not_converted_ex_db)

lemma page_ok_static_store:
  assumes "page_ok db"
  shows "\<forall>from to rows. data (static_store db from to) = Some rows \<longrightarrow> page_ok rows"
proof (intro allI impI)
  fix "from" to rows
  assume "data (static_store db from to) = Some rows"
  then have rows: "rows = take (to + 1 - from) (drop from db)"
    by (simp add: static_store_def)
  have "distinct (take (to + 1 - from) (drop from (map lead_id db)))"
    using assms by (simp add: page_ok_def)
  then have d: "distinct (map lead_id rows)"
    unfolding rows by (simp only: take_map drop_map)
  have "set rows \<subseteq> set db"
    unfolding rows by (meson set_take_subset set_drop_subset subset_trans)
  then have "list_all (\<lambda>l. \<not> is_converted l) rows"
    using assms by (auto simp add: page_ok_def list_all_iff)
  with d show "page_ok rows" by (simp add: page_ok_def)
qed

text \<open>
  C4, as the code has it. The store answers every page with rows of pairwise different
  identities, none converted. Then the displayed collection holds no identity twice and
  only leads that are not converted and visible to the viewer: after the first page is
  shown, after each background merge, at the end of the run, and after an in-place
  status change. An in-place assignment keeps the identities apart and the leads not
  converted; it keeps every lead visible to the viewer when the viewer's predicate
  accepts the target lead with its new assignee, and not otherwise: the lead stays in
  the collection with its new \<^verbatim>\<open>assigned_to\<close>.
\<close>

theorem C4_displayed_invariant:
  "(page_ok rows \<longrightarrow> displayed_ok cu subs (filterFirstBatch cu subs rows))
   \<and> (displayed_ok cu subs ds \<and> page_ok rows
        \<longrightarrow> displayed_ok cu subs (mergeLeads ds (filterBatch cu subs rows)))
   \<and> (displayed_ok cu subs (leads w) \<and> page_ok rows
        \<longrightarrow> displayed_ok cu subs (leads (mergePage cu subs rows w)))
   \<and> ((\<forall>from to rs. data (srv from to) = Some rs \<longrightarrow> page_ok rs)
        \<longrightarrow> displayed_ok cu (subordinateIdsFor cu hier)
              (leads (fetchLeads (Some cu) hier srv w)))
   \<and> (displayed_ok cu subs (leads w)
        \<longrightarrow> displayed_ok cu subs
              (leads (SalesLeads_handleStatusChange ue ie leadId newStatus w)))
   \<and> (displayed_ok cu subs (leads w)
        \<longrightarrow> distinct (map lead_id (leads (SalesLeads_handleAssignAgent ue ie leadId agentId w)))
            \<and> list_all (\<lambda>l. \<not> is_converted l)
                (leads (SalesLeads_handleAssignAgent ue ie leadId agentId w)))
   \<and> (displayed_ok cu subs (leads w)
        \<and> list_all (\<lambda>l. lead_id l \<noteq> leadId \<or> visible cu subs (l\<lparr>assigned_to := agentId\<rparr>))
             (leads w)
        \<longrightarrow> displayed_ok cu subs
              (leads (SalesLeads_handleAssignAgent ue ie leadId agentId w)))"
proof -
  have a: "page_ok rows \<longrightarrow> displayed_ok cu subs (filterFirstBatch cu subs rows)"
    by (simp add: displayed_ok_first)
  have b: "displayed_ok cu subs ds \<and> page_ok rows
        \<longrightarrow> displayed_ok cu subs (mergeLeads ds (filterBatch cu subs rows))"
    by (simp add: displayed_ok_merge)
  have c: "displayed_ok cu subs (leads w) \<and> page_ok rows
        \<longrightarrow> displayed_ok cu subs (leads (mergePage cu subs rows w))"
    by (simp add: displayed_ok_mergePage)
  have d: "(\<forall>from to rs. data (srv from to) = Some rs \<longrightarrow> page_ok rs)
        \<longrightarrow> displayed_ok cu (subordinateIdsFor cu hier)
              (leads (fetchLeads (Some cu) hier srv w))"
    by (intro impI) (rule displayed_ok_fetchLeads)
  have e: "displayed_ok cu subs (leads w)
        \<longrightarrow> displayed_ok cu subs
              (leads (SalesLeads_handleStatusChange ue ie leadId newStatus w))"
    by (intro impI) (rule displayed_ok_status)
  have f: "displayed_ok cu subs (leads w)
        \<longrightarrow> distinct (map lead_id (leads (SalesLeads_handleAssignAgent ue ie leadId agentId w)))
            \<and> list_all (\<lambda>l. \<not> is_converted l)
                (leads (SalesLeads_handleAssignAgent ue ie leadId agentId w))"
    using displayed_ok_assign[of cu subs w ue ie leadId agentId] by (intro impI) simp
  have g: "displayed_ok cu subs (leads w)
        \<and> list_all (\<lambda>l. lead_id l \<noteq> leadId \<or> visible cu subs (l\<lparr>assigned_to := agentId\<rparr>))
             (leads w)
        \<longrightarrow> displayed_ok cu subs
              (leads (SalesLeads_handleAssignAgent ue ie leadId agentId w))"
    using displayed_ok_assign[of cu subs w ue ie leadId agentId] by (intro impI) simp
  show ?thesis by (intro conjI) (rule a b c d e f g)+
qed

theorem C4_displayed_invariant_witness:
  "page_ok (ex_db 3)
   \<and> displayed_ok (ex_viewer ''u0'' ''admin'') [] (ex_db 2)
   \<and> displayed_ok (ex_viewer ''u0'' ''admin'') [] (leads (ex_world [] (ex_db 2) []))
   \<and> list_all (\<lambda>l. lead_id l \<noteq> lead_id (ex_lead 0 None)
                  \<or> visible (ex_viewer ''u0'' ''admin'') [] (l\<lparr>assigned_to := Some ''u7''\<rparr>))
        (leads (ex_world [] (ex_db 2) []))
   \<and> displayed_ok (ex_viewer ''u0'' ''admin'') []
        (filterFirstBatch (ex_viewer ''u0'' ''admin'') [] (ex_db 3))
   \<and> displayed_ok (ex_viewer ''u0'' ''admin'') []
        (mergeLeads (ex_db 2) (filterBatch (ex_viewer ''u0'' ''admin'') [] (ex_db 3)))
   \<and> displayed_ok (ex_viewer ''u0'' ''admin'') []
        (leads (mergePage (ex_viewer ''u0'' ''admin'') [] (ex_db 3) (ex_world [] (ex_db 2) [])))
   \<and> displayed_ok (ex_viewer ''u0'' ''admin'') (subordinateIdsFor (ex_viewer ''u0'' ''admin'') [])
        (leads (fetchLeads (Some (ex_viewer ''u0'' ''admin'')) [] (static_store (ex_db 3))
                  (ex_world [] (ex_db 2) [])))
   \<and> displayed_ok (ex_viewer ''u0'' ''admin'') []
        (leads (SalesLeads_handleStatusChange None None (lead_id (ex_lead 0 None)) ''won''
                  (ex_world [] (ex_db 2) [])))
   \<and> displayed_ok (ex_viewer ''u0'' ''admin'') []
        (leads (SalesLeads_handleAssignAgent None None (lead_id (ex_lead 0 None)) (Some ''u7'')
                  (ex_world [] (ex_db 2) [])))"
proof -
  let ?u = "ex_viewer ''u0'' ''admin''" and ?w = "ex_world [] (ex_db 2) []"
  have adm: "role ?u = ''admin''" by (simp add: ex_viewer_def)
  have h1: "page_ok (ex_db 3)" by (rule page_ok_ex_db)
  have h2: "displayed_ok ?u [] (ex_db 2)"
    using distinct_ex_db[of 2] not_converted_ex_db[of 2]
    by (simp add: displayed_ok_def list_all_iff visible_admin[OF adm])
  have h3: "displayed_ok ?u [] (leads ?w)" using h2 by (simp add: ex_world_def)
  have h4: "\<forall>from to rs. data (static_store (ex_db 3) from to) = Some rs \<longrightarrow> page_ok rs"
    using h1 by (rule page_ok_static_store)
  have h5: "list_all (\<lambda>l. lead_id l \<noteq> lead_id (ex_lead 0 None)
                  \<or> visible ?u [] (l\<lparr>assigned_to := Some ''u7''\<rparr>)) (leads ?w)"
    by (simp add: list_all_iff visible_admin[OF adm])
  note t = C4_displayed_invariant[where cu = ?u and subs = "[]" and rows = "ex_db 3"
             and ds = "ex_db 2" and w = ?w and srv = "static_store (ex_db 3)" and hier = "[]"
             and ue = None and ie = None and leadId = "lead_id (ex_lead 0 None)"
             and newStatus = "''won''" and agentId = "Some ''u7''"]
  from t h1 have c1: "displayed_ok ?u [] (filterFirstBatch ?u [] (ex_db 3))" by blast
  from t h1 h2 have c2: "displayed_ok ?u [] (mergeLeads (ex_db 2) (filterBatch ?u [] (ex_db 3)))"
    by blast
  from t h1 h3 have c3: "displayed_ok ?u [] (leads (mergePage ?u [] (ex_db 3) ?w))" by blast
  from t h4 have c4: "displayed_ok ?u (subordinateIdsFor ?u [])
        (leads (fetchLeads (Some ?u) [] (static_store (ex_db 3)) ?w))" by blast
  from t h3 have c5: "displayed_ok ?u []
        (leads (SalesLeads_handleStatusChange None None (lead_id (ex_lead 0 None)) ''won'' ?w))"
    by blast
  from t h3 h5 have c6: "displayed_ok ?u []
        (leads (SalesLeads_handleAssignAgent None None (lead_id (ex_lead 0 None)) (Some ''u7'') ?w))"
    by blast
  show ?thesis by (intro conjI) (rule h1 h2 h3 h5 c1 c2 c3 c4 c5 c6)+
qed

theorem C4_assignment_counterexample:
  "displayed_ok (ex_viewer ''u1'' ''agent'') []
     (leads (ex_world [] [ex_lead 2 (Some ''u1'')] []))
   \<and> \<not> displayed_ok (ex_viewer ''u1'' ''agent'') []
     (leads (SalesLeads_handleAssignAgent None None (lead_id (ex_lead 2 (Some ''u1''))) None
        (ex_world [] [ex_lead 2 (Some ''u1'')] [])))
   \<and> leads (SalesLeads_handleAssignAgent None None (lead_id (ex_lead 2 (Some ''u1''))) None
        (ex_world [] [ex_lead 2 (Some ''u1'')] [])) = [ex_lead 2 None]
   \<and> \<not> visible (ex_viewer ''u1'' ''agent'') [] (ex_lead 2 None)"
  by (simp add: displayed_ok_def visible_agent ex_viewer_def ex_world_def ex_lead_def
        SalesLeads_handleAssignAgent_def Let_def insertActivity_def)

end
